theory Spec2Isabelle
  imports Complex_Main "HOL-Library.Word" "HOL-Library.Sublist"
begin

unbundle bit_operations_syntax

section \<open>Scope of the model\<close>

text \<open>
  The development embeds the backend of the educational video generator:
  \<^verbatim>\<open>backend/ai_pipeline.py\<close> (the four stages and their orchestration),
  \<^verbatim>\<open>backend/crud.py\<close>, \<^verbatim>\<open>backend/models.py\<close> and the handlers of
  \<^verbatim>\<open>backend/main.py\<close>.

  The hosted language model, the text-to-speech endpoint, the diffusion model and the
  command-line media tool are collaborators outside the repository. Each of them is a field
  of the record \<open>env\<close>: a function from the arguments the code passes to the outcome the
  code observes, an exception or a value. Nothing is assumed about these functions.

  Everything the code changes lives in the record \<open>world\<close>: the contents of the files,
  the process environment, the position in the random source and the trace of the
  interactions with the outside, in the order in which they happen.

  Exceptions are values of the type \<open>exn\<close>; a function that can raise returns
  \<open>(exn + 'a) \<times> world\<close>, the world being the one at the moment of the raise.

  Every call into the file system (\<^verbatim>\<open>os.makedirs\<close>, \<^verbatim>\<open>open(.., "wb")\<close>, the write to the
  open file, \<^verbatim>\<open>image.save\<close>, \<^verbatim>\<open>os.remove\<close>) can raise: whether it does is decided by
  the field \<open>fs_fault\<close> of \<open>env\<close>, a function of the interactions so far and of the
  call, of which nothing is assumed either. A call that raises leaves the files as they
  were. The empty path always raises, as it does on POSIX, and so does the removal of a file
  that is not there.

  The texts that the pipeline splits and strips (the input text, the enhanced text, the
  template, the prompts) are lists of Unicode code points, because what
  \<^verbatim>\<open>str.strip\<close> removes depends on the code point. File names, identifiers, URLs and
  messages, on which the code only concatenates, compares and replaces, are lists of 8-bit
  characters.
\<close>

section \<open>Python strings\<close>

definition digit_char :: "nat \<Rightarrow> char" where
  "digit_char n = ''0123456789'' ! (n mod 10)"

text \<open>\<^verbatim>\<open>str(n)\<close> for a natural number: its decimal digits.\<close>

fun str_nat :: "nat \<Rightarrow> string" where
  "str_nat n = (if n < 10 then [digit_char n] else str_nat (n div 10) @ [digit_char (n mod 10)])"

declare str_nat.simps [simp del]

definition str_int :: "int \<Rightarrow> string" where
  "str_int i = (if i < 0 then CHR ''-'' # str_nat (nat (- i)) else str_nat (nat i))"

text \<open>
  A text is the list of its code points; \<open>ustr_of\<close> reads a literal of 8-bit characters
  as a text.
\<close>

type_synonym ustr = "nat list"

definition ustr_of :: "string \<Rightarrow> ustr" where
  "ustr_of s = map of_char s"

text \<open>
  The code points for which \<^verbatim>\<open>str.isspace\<close> holds: the ASCII controls 9 to 13 and 28
  to 31, the space, U+0085, U+00A0, U+1680, U+2000 to U+200A, U+2028, U+2029, U+202F,
  U+205F and U+3000.
\<close>

definition isspace :: "nat \<Rightarrow> bool" where
  "isspace c =
     (0x09 \<le> c \<and> c \<le> 0x0D \<or> 0x1C \<le> c \<and> c \<le> 0x20 \<or> c = 0x85 \<or> c = 0xA0
        \<or> c = 0x1680 \<or> 0x2000 \<le> c \<and> c \<le> 0x200A \<or> c = 0x2028 \<or> c = 0x2029
        \<or> c = 0x202F \<or> c = 0x205F \<or> c = 0x3000)"

text \<open>\<^verbatim>\<open>s.strip()\<close>: whitespace removed at both ends.\<close>

definition str_strip :: "ustr \<Rightarrow> ustr" where
  "str_strip s = rev (dropWhile isspace (rev (dropWhile isspace s)))"

text \<open>
  \<^verbatim>\<open>s.split(sep)\<close> for a separator of one character: never the empty list.
  \<^verbatim>\<open>sep.join(xs)\<close> puts the pieces together again.
\<close>

fun str_join :: "'a \<Rightarrow> 'a list list \<Rightarrow> 'a list" where
  "str_join sep [] = []"
| "str_join sep [x] = x"
| "str_join sep (x # y # ys) = x @ sep # str_join sep (y # ys)"

fun str_split :: "'a \<Rightarrow> 'a list \<Rightarrow> 'a list list" where
  "str_split sep [] = [[]]"
| "str_split sep (c # cs) =
     (if c = sep then [] # str_split sep cs
      else (case str_split sep cs of
              [] \<Rightarrow> [[c]]
            | x # xs \<Rightarrow> (c # x) # xs))"

text \<open>
  \<^verbatim>\<open>s.replace(old, new)\<close>: every occurrence of \<open>old\<close>, scanning from the left,
  without overlaps. With an empty \<open>old\<close> Python puts \<open>new\<close> before every character and
  at the end.
\<close>

function str_replace :: "string \<Rightarrow> string \<Rightarrow> string \<Rightarrow> string" where
  "str_replace old new s =
     (if old = [] then new @ concat (map (\<lambda>c. c # new) s)
      else if s = [] then []
      else if prefix old s then new @ str_replace old new (drop (length old) s)
      else hd s # str_replace old new (tl s))"
  by pat_completeness auto
termination
  by (relation "measure (\<lambda>(old, new, s). length s)") auto

declare str_replace.simps [simp del]

section \<open>\<^verbatim>\<open>os.path\<close> on POSIX\<close>

definition sep :: char where
  "sep = CHR ''/''"

text \<open>\<^verbatim>\<open>os.path.join(a, b)\<close>: an absolute \<open>b\<close> discards \<open>a\<close>.\<close>

definition os_path_join :: "string \<Rightarrow> string \<Rightarrow> string" where
  "os_path_join a b =
     (if b \<noteq> [] \<and> hd b = sep then b
      else if a = [] \<or> last a = sep then a @ b
      else a @ [sep] @ b)"

text \<open>
  \<^verbatim>\<open>os.path.dirname(p)\<close>: the part up to the last separator, without its trailing
  separators unless it consists of separators only.
\<close>

definition os_path_dirname :: "string \<Rightarrow> string" where
  "os_path_dirname p =
     (let head = rev (dropWhile (\<lambda>c. c \<noteq> sep) (rev p))
      in if head \<noteq> [] \<and> filter (\<lambda>c. c \<noteq> sep) head \<noteq> []
         then rev (dropWhile (\<lambda>c. c = sep) (rev head))
         else head)"

section \<open>\<^verbatim>\<open>uuid.uuid4\<close>\<close>

text \<open>
  \<^verbatim>\<open>uuid.uuid4()\<close> takes 16 random bytes, sets the variant bits to \<open>10\<close> and the
  version to 4; \<^verbatim>\<open>str\<close> prints the 32 lower-case hexadecimal digits in groups of
  8, 4, 4, 4 and 12, with hyphens between them.
\<close>

definition uuid4 :: "128 word \<Rightarrow> 128 word" where
  "uuid4 r =
     (((r AND NOT (push_bit 48 0xC000)) OR push_bit 48 0x8000)
        AND NOT (push_bit 64 0xF000)) OR push_bit 76 4"

definition hex_digit :: "nat \<Rightarrow> char" where
  "hex_digit n = ''0123456789abcdef'' ! (n mod 16)"

definition hex32 :: "128 word \<Rightarrow> string" where
  "hex32 u = map (\<lambda>i. hex_digit (unat (drop_bit (4 * (31 - i)) u AND 15))) [0..<32]"

definition str_uuid :: "128 word \<Rightarrow> string" where
  "str_uuid u =
     (let h = hex32 u
      in take 8 h @ ''-'' @ take 4 (drop 8 h) @ ''-'' @ take 4 (drop 12 h) @ ''-''
           @ take 4 (drop 16 h) @ ''-'' @ drop 20 h)"

section \<open>Exceptions, the outside, the world\<close>

datatype div_op = FloorDiv | TrueDiv

datatype exn =
    RuntimeError string
  | IndexError
  | ZeroDivisionError div_op
  | CalledProcessError int "string list"
  | FileNotFoundError string
  | HTTPException int string
  | IntegrityError
  | External string

datatype json = JStr ustr | JNum string | JBool bool | JObj "(string \<times> json) list"

record response =
  status_code :: int
  content :: string
  resp_text :: string

text \<open>
  The interactions with the outside, as the trace records them: directory creation, the
  language model call (model name, input), loading the diffusion model, one diffusion call
  (prompt), saving an image, one HTTP POST (URL, headers, JSON body), opening a file for
  writing, writing the open file, one run of an external command, removing a file. A call
  into the file system is recorded when it has succeeded.
\<close>

datatype event =
    MakeDirs string
  | Generate string ustr
  | LoadDiffusion string
  | PipeCall ustr
  | SaveImage string
  | HttpPost string "(string \<times> string) list" json
  | OpenFile string
  | WriteFile string
  | RunTool "string list"
  | RemoveFile string

text \<open>
  The collaborators. \<open>text_generation m t\<close> is \<^verbatim>\<open>result[0]['generated_text']\<close> of the
  text-generation pipeline of model \<open>m\<close> on input \<open>t\<close> (\<^verbatim>\<open>max_length=512\<close>, one
  sequence). \<open>pipe_images m p\<close> is the list \<^verbatim>\<open>pipe(p).images\<close> of the diffusion model
  \<open>m\<close>, each image given by the bytes \<^verbatim>\<open>save\<close> writes. \<open>run_tool cmd fs\<close> is the
  run of the command \<open>cmd\<close> on the files \<open>fs\<close>: its exit status and what it leaves at
  its output path, which for the media tool is the last argument. \<open>float_recip_str d\<close> is
  \<^verbatim>\<open>str(1/d)\<close> for a non-zero integer \<open>d\<close>, the printed form of a float.
  \<open>os_urandom n\<close> is the \<open>n\<close>-th draw of 16 random bytes. \<open>fs_fault h c\<close> is the
  exception the file system raises at the call \<open>c\<close> after the interactions \<open>h\<close>, if it
  raises one.
\<close>

record env =
  text_generation :: "string \<Rightarrow> ustr \<Rightarrow> exn + ustr"
  requests_post :: "string \<Rightarrow> (string \<times> string) list \<Rightarrow> json \<Rightarrow> exn + response"
  from_pretrained :: "string \<Rightarrow> exn + unit"
  pipe_images :: "string \<Rightarrow> ustr \<Rightarrow> exn + string list"
  run_tool :: "string list \<Rightarrow> (string \<rightharpoonup> string) \<Rightarrow> exn + (int \<times> string option)"
  float_recip_str :: "int \<Rightarrow> string"
  os_urandom :: "nat \<Rightarrow> 128 word"
  fs_fault :: "event list \<Rightarrow> event \<Rightarrow> exn option"

record world =
  files :: "string \<rightharpoonup> string"
  environ :: "string \<rightharpoonup> string"
  rng_pos :: nat
  trace :: "event list"

definition log_event :: "event \<Rightarrow> world \<Rightarrow> world" where
  "log_event e w = w\<lparr>trace := trace w @ [e]\<rparr>"

definition write_file :: "string \<Rightarrow> string \<Rightarrow> world \<Rightarrow> world" where
  "write_file path bytes w = w\<lparr>files := (files w)(path \<mapsto> bytes)\<rparr>"

definition delete_file :: "string \<Rightarrow> world \<Rightarrow> world" where
  "delete_file path w = w\<lparr>files := (files w)(path := None)\<rparr>"

section \<open>The file system\<close>

text \<open>
  One call into the file system: it raises what \<open>fs_fault\<close> says, or else takes effect
  and is recorded.
\<close>

definition fs_call ::
  "env \<Rightarrow> world \<Rightarrow> event \<Rightarrow> (world \<Rightarrow> world) \<Rightarrow> (exn + unit) \<times> world" where
  "fs_call env w c effect =
     (case fs_fault env (trace w) c of
        Some e \<Rightarrow> (Inl e, w)
      | None \<Rightarrow> (Inr (), log_event c (effect w)))"

text \<open>\<^verbatim>\<open>os.makedirs(path, exist_ok=True)\<close>\<close>

definition os_makedirs :: "env \<Rightarrow> world \<Rightarrow> string \<Rightarrow> (exn + unit) \<times> world" where
  "os_makedirs env w path =
     (if path = [] then (Inl (FileNotFoundError path), w)
      else fs_call env w (MakeDirs path) (\<lambda>w. w))"

text \<open>\<^verbatim>\<open>open(path, "wb")\<close>: the file is there and empty afterwards.\<close>

definition open_wb :: "env \<Rightarrow> world \<Rightarrow> string \<Rightarrow> (exn + unit) \<times> world" where
  "open_wb env w path =
     (if path = [] then (Inl (FileNotFoundError path), w)
      else fs_call env w (OpenFile path) (write_file path []))"

text \<open>\<^verbatim>\<open>f.write(bytes)\<close> on the file opened at \<open>path\<close>, and its closing.\<close>

definition file_write :: "env \<Rightarrow> world \<Rightarrow> string \<Rightarrow> string \<Rightarrow> (exn + unit) \<times> world" where
  "file_write env w path bytes = fs_call env w (WriteFile path) (write_file path bytes)"

text \<open>\<^verbatim>\<open>image.save(path)\<close>\<close>

definition image_save :: "env \<Rightarrow> world \<Rightarrow> string \<Rightarrow> string \<Rightarrow> (exn + unit) \<times> world" where
  "image_save env w path img = fs_call env w (SaveImage path) (write_file path img)"

text \<open>\<^verbatim>\<open>os.remove(path)\<close>\<close>

definition os_remove :: "env \<Rightarrow> world \<Rightarrow> string \<Rightarrow> (exn + unit) \<times> world" where
  "os_remove env w path =
     (case files w path of
        None \<Rightarrow> (Inl (FileNotFoundError path), w)
      | Some _ \<Rightarrow> fs_call env w (RemoveFile path) (delete_file path))"

section \<open>\<^verbatim>\<open>ai_pipeline.py\<close>\<close>

subsection \<open>Text enhancement\<close>

definition default_model_name :: string where
  "default_model_name = ''gpt2''"

definition enhance_text :: "env \<Rightarrow> world \<Rightarrow> ustr \<Rightarrow> string \<Rightarrow> (exn + ustr) \<times> world" where
  "enhance_text env w input_text model_name =
     (text_generation env model_name input_text,
      log_event (Generate model_name input_text) w)"

subsection \<open>Text to speech\<close>

definition tts_url :: "string \<Rightarrow> string" where
  "tts_url voice = ''https://api.elevenlabs.io/v1/text-to-speech/'' @ voice"

definition tts_headers :: "string \<Rightarrow> (string \<times> string) list" where
  "tts_headers api_key = [(''xi-api-key'', api_key), (''Content-Type'', ''application/json'')]"

definition tts_payload :: "ustr \<Rightarrow> json" where
  "tts_payload text =
     JObj [(''text'', JStr text),
           (''voice_settings'',
              JObj [(''stability'', JNum ''0.5''), (''similarity_boost'', JNum ''0.5''),
                    (''style'', JNum ''0.5''), (''use_speaker_boost'', JBool True)]),
           (''model_id'', JStr (ustr_of ''eleven_multilingual_v2''))]"

definition no_key_message :: string where
  "no_key_message =
     ''ElevenLabs API key not set. Set ELEVENLABS_API_KEY as env variable or pass as argument.''"

text \<open>
  The parameter \<open>speed\<close> is never read. The key is the argument or, when that is
  \<^verbatim>\<open>None\<close>, the environment variable; a missing or empty key raises before any request.
  On status 200 the output file is opened, which empties it, and the bytes of the response
  are written to it; either step can raise.
\<close>

definition resolve_api_key :: "world \<Rightarrow> string option \<Rightarrow> string option" where
  "resolve_api_key w api_key =
     (case api_key of None \<Rightarrow> environ w ''ELEVENLABS_API_KEY'' | Some k \<Rightarrow> Some k)"

definition tts_error :: "response \<Rightarrow> exn" where
  "tts_error response =
     RuntimeError (''TTS API error: '' @ str_int (status_code response) @ '' ''
                     @ resp_text response)"

definition generate_audio ::
  "env \<Rightarrow> world \<Rightarrow> ustr \<Rightarrow> string \<Rightarrow> string \<Rightarrow> real \<Rightarrow> string option
     \<Rightarrow> (exn + string) \<times> world" where
  "generate_audio env w text voice out_path speed api_key =
     (case resolve_api_key w api_key of
        None \<Rightarrow> (Inl (RuntimeError no_key_message), w)
      | Some k \<Rightarrow>
          (if k = [] then (Inl (RuntimeError no_key_message), w)
           else
             (let url = tts_url voice;
                  headers = tts_headers k;
                  payload = tts_payload text;
                  w1 = log_event (HttpPost url headers payload) w
              in (case requests_post env url headers payload of
                    Inl e \<Rightarrow> (Inl e, w1)
                  | Inr response \<Rightarrow>
                      (if status_code response \<noteq> 200 then (Inl (tts_error response), w1)
                       else
                         (case open_wb env w1 out_path of
                            (Inl e, w2) \<Rightarrow> (Inl e, w2)
                          | (Inr _, w2) \<Rightarrow>
                              (case file_write env w2 out_path (content response) of
                                 (Inl e, w3) \<Rightarrow> (Inl e, w3)
                               | (Inr _, w3) \<Rightarrow> (Inr out_path, w3))))))))"

subsection \<open>Image generation\<close>

definition default_model_id :: string where
  "default_model_id = ''stabilityai/stable-diffusion-xl-base-1.0''"

definition img_name :: "nat \<Rightarrow> string" where
  "img_name i = ''img_'' @ str_nat (i + 1) @ ''.png''"

text \<open>
  The loop over \<^verbatim>\<open>enumerate(prompts)\<close>: \<open>i\<close> is the index of the next prompt and
  \<open>image_paths\<close> the list built so far. \<^verbatim>\<open>.images[0]\<close> raises on an empty list, and
  saving the image can raise.
\<close>

fun generate_images_loop ::
  "env \<Rightarrow> string \<Rightarrow> string \<Rightarrow> nat \<Rightarrow> ustr list \<Rightarrow> string list \<Rightarrow> world
     \<Rightarrow> (exn + string list) \<times> world" where
  "generate_images_loop env model_id out_dir i [] image_paths w = (Inr image_paths, w)"
| "generate_images_loop env model_id out_dir i (prompt # rest) image_paths w =
     (let w1 = log_event (PipeCall prompt) w
      in case pipe_images env model_id prompt of
           Inl e \<Rightarrow> (Inl e, w1)
         | Inr images \<Rightarrow>
             (case images of
                [] \<Rightarrow> (Inl IndexError, w1)
              | img # _ \<Rightarrow>
                  (let img_path = os_path_join out_dir (img_name i)
                   in (case image_save env w1 img_path img of
                         (Inl e, w2) \<Rightarrow> (Inl e, w2)
                       | (Inr _, w2) \<Rightarrow>
                           generate_images_loop env model_id out_dir (i + 1) rest
                             (image_paths @ [img_path]) w2))))"

definition generate_images ::
  "env \<Rightarrow> world \<Rightarrow> ustr list \<Rightarrow> string \<Rightarrow> string \<Rightarrow> (exn + string list) \<times> world" where
  "generate_images env w prompts out_dir model_id =
     (let w1 = log_event (LoadDiffusion model_id) w
      in (case from_pretrained env model_id of
            Inl e \<Rightarrow> (Inl e, w1)
          | Inr _ \<Rightarrow>
              (case os_makedirs env w1 out_dir of
                 (Inl e, w2) \<Rightarrow> (Inl e, w2)
               | (Inr _, w2) \<Rightarrow> generate_images_loop env model_id out_dir 0 prompts [] w2)))"

subsection \<open>Video assembly\<close>

text \<open>Python's \<^verbatim>\<open>a // b\<close> and \<^verbatim>\<open>1 / d\<close> on integers: both raise on a zero divisor.\<close>

definition py_floordiv :: "int \<Rightarrow> int \<Rightarrow> exn + int" where
  "py_floordiv a b = (if b = 0 then Inl (ZeroDivisionError FloorDiv) else Inr (a div b))"

definition py_recip_str :: "env \<Rightarrow> int \<Rightarrow> exn + string" where
  "py_recip_str env d =
     (if d = 0 then Inl (ZeroDivisionError TrueDiv) else Inr (float_recip_str env d))"

text \<open>\<^verbatim>\<open>img_duration = duration // len(image_paths)\<close>\<close>

definition img_duration :: "int \<Rightarrow> string list \<Rightarrow> exn + int" where
  "img_duration duration image_paths = py_floordiv duration (int (length image_paths))"

definition ffmpeg_img_cmd :: "string \<Rightarrow> string \<Rightarrow> string \<Rightarrow> string list" where
  "ffmpeg_img_cmd framerate img_pattern video_tmp =
     [''ffmpeg'', ''-y'', ''-framerate'', framerate, ''-i'', img_pattern,
      ''-c:v'', ''libx264'', ''-r'', ''30'', ''-pix_fmt'', ''yuv420p'', video_tmp]"

definition ffmpeg_audio_cmd :: "string \<Rightarrow> string \<Rightarrow> string \<Rightarrow> string list" where
  "ffmpeg_audio_cmd video_tmp audio_path out_path =
     [''ffmpeg'', ''-y'', ''-i'', video_tmp, ''-i'', audio_path, ''-c:v'', ''copy'',
      ''-c:a'', ''aac'', ''-shortest'', out_path]"

text \<open>
  \<^verbatim>\<open>subprocess.run(cmd, check=True)\<close>: the command runs, leaves its output at its last
  argument, and a non-zero exit status raises.
\<close>

definition subprocess_run :: "env \<Rightarrow> world \<Rightarrow> string list \<Rightarrow> (exn + unit) \<times> world" where
  "subprocess_run env w cmd =
     (let w1 = log_event (RunTool cmd) w
      in (case run_tool env cmd (files w) of
            Inl e \<Rightarrow> (Inl e, w1)
          | Inr (returncode, out) \<Rightarrow>
              (let w2 = w1\<lparr>files := (files w1)(last cmd := out)\<rparr>
               in if returncode \<noteq> 0 then (Inl (CalledProcessError returncode cmd), w2)
                  else (Inr (), w2))))"

text \<open>
  \<^verbatim>\<open>image_paths[0]\<close> is read first and raises on the empty list; the two divisions
  follow, in the order of the source. The parameter \<open>music_path\<close> is never read.
\<close>

definition assemble_video ::
  "env \<Rightarrow> world \<Rightarrow> string list \<Rightarrow> string \<Rightarrow> string \<Rightarrow> int \<Rightarrow> string option
     \<Rightarrow> (exn + string) \<times> world" where
  "assemble_video env w image_paths audio_path out_path duration music_path =
     (case image_paths of
        [] \<Rightarrow> (Inl IndexError, w)
      | first_path # _ \<Rightarrow>
          (let img_pattern = os_path_join (os_path_dirname first_path) ''img_%d.png'';
               video_tmp = str_replace ''.mp4'' ''_tmp.mp4'' out_path
           in (case img_duration duration image_paths of
                 Inl e \<Rightarrow> (Inl e, w)
               | Inr d \<Rightarrow>
                   (case py_recip_str env d of
                      Inl e \<Rightarrow> (Inl e, w)
                    | Inr framerate \<Rightarrow>
                        (case subprocess_run env w (ffmpeg_img_cmd framerate img_pattern video_tmp) of
                           (Inl e, w1) \<Rightarrow> (Inl e, w1)
                         | (Inr _, w1) \<Rightarrow>
                             (case subprocess_run env w1
                                     (ffmpeg_audio_cmd video_tmp audio_path out_path) of
                                (Inl e, w2) \<Rightarrow> (Inl e, w2)
                              | (Inr _, w2) \<Rightarrow>
                                  (case os_remove env w2 video_tmp of
                                     (Inl e, w3) \<Rightarrow> (Inl e, w3)
                                   | (Inr _, w3) \<Rightarrow> (Inr out_path, w3))))))))"

subsection \<open>Orchestration\<close>

record pipeline_result =
  job_id :: string
  video_path :: string
  image_paths :: "string list"
  audio_path :: string
  prompts :: "ustr list"
  enhanced_text :: ustr

text \<open>
  The list comprehension of the pipeline: the segments between periods whose stripped form
  is not empty, each turned into a prompt, and of these the first three.
\<close>

definition period :: nat where
  "period = 0x2E"

definition extract_prompts :: "ustr \<Rightarrow> ustr \<Rightarrow> ustr list" where
  "extract_prompts template enhanced =
     take 3 (map (\<lambda>line. template @ ustr_of '' educational image: '' @ str_strip line)
               (filter (\<lambda>line. str_strip line \<noteq> []) (str_split period enhanced)))"

text \<open>The identifier of a job: \<^verbatim>\<open>str(uuid.uuid4())\<close> on the next draw of the random source.\<close>

definition new_job_id :: "env \<Rightarrow> world \<Rightarrow> string" where
  "new_job_id env w = str_uuid (uuid4 (os_urandom env (rng_pos w)))"

text \<open>The parameter \<open>user_id\<close> is never read.\<close>

definition process_video_pipeline ::
  "env \<Rightarrow> world \<Rightarrow> ustr \<Rightarrow> ustr \<Rightarrow> string \<Rightarrow> string \<Rightarrow> string \<Rightarrow> int \<Rightarrow> string option
     \<Rightarrow> (exn + pipeline_result) \<times> world" where
  "process_video_pipeline env w text template voice_type user_id out_dir duration
       elevenlabs_api_key =
     (let jid = new_job_id env w;
          job_dir = os_path_join out_dir jid
      in (case os_makedirs env (w\<lparr>rng_pos := rng_pos w + 1\<rparr>) job_dir of
            (Inl e, w0) \<Rightarrow> (Inl e, w0)
          | (Inr _, w0) \<Rightarrow>
         (case enhance_text env w0 text default_model_name of
            (Inl e, w1) \<Rightarrow> (Inl e, w1)
          | (Inr enhanced, w1) \<Rightarrow>
              (let ps = extract_prompts template enhanced
               in (case generate_images env w1 ps job_dir default_model_id of
                     (Inl e, w2) \<Rightarrow> (Inl e, w2)
                   | (Inr paths, w2) \<Rightarrow>
                       (let apath = os_path_join job_dir ''audio.mp3''
                        in (case generate_audio env w2 enhanced voice_type apath 1
                                    elevenlabs_api_key of
                              (Inl e, w3) \<Rightarrow> (Inl e, w3)
                            | (Inr _, w3) \<Rightarrow>
                                (let vpath = os_path_join job_dir ''video.mp4''
                                 in (case assemble_video env w3 paths apath vpath duration None of
                                       (Inl e, w4) \<Rightarrow> (Inl e, w4)
                                     | (Inr _, w4) \<Rightarrow>
                                         (Inr \<lparr>job_id = jid, video_path = vpath,
                                                image_paths = paths, audio_path = apath,
                                                prompts = ps, enhanced_text = enhanced\<rparr>,
                                          w4))))))))))"

section \<open>\<^verbatim>\<open>models.py\<close>, \<^verbatim>\<open>schemas.py\<close> and \<^verbatim>\<open>crud.py\<close>\<close>

text \<open>
  A table is the list of its rows in the order of insertion. The columns the code leaves
  unset at an insert are filled as \<^verbatim>\<open>models.py\<close> declares: \<^verbatim>\<open>video_quota\<close> is 10,
  \<^verbatim>\<open>status\<close> is \<^verbatim>\<open>"processing"\<close>, \<^verbatim>\<open>video_url\<close> stays empty. The primary key and the
  time stamp come from the database and the clock: they are the argument \<open>row_defaults\<close>.
  The column \<^verbatim>\<open>email\<close> is declared unique, so a commit that would repeat an address
  raises and leaves the table as it was.
\<close>

record user =
  u_id :: int
  u_email :: string
  u_created_at :: int
  u_video_quota :: int

record video =
  v_id :: int
  v_user_id :: int
  v_title :: string
  v_original_text :: string
  v_video_url :: "string option"
  v_template :: string
  v_status :: string
  v_created_at :: int

record database =
  users :: "user list"
  videos :: "video list"

record row_defaults =
  new_id :: int
  utcnow :: int

record user_create =
  uc_email :: string

record video_create =
  vc_title :: string
  vc_original_text :: string
  vc_template :: string

definition get_user_by_email :: "database \<Rightarrow> string \<Rightarrow> user option" where
  "get_user_by_email db email = find (\<lambda>u. u_email u = email) (users db)"

definition crud_create_user ::
  "database \<Rightarrow> row_defaults \<Rightarrow> user_create \<Rightarrow> (exn + user) \<times> database" where
  "crud_create_user db dflt usr =
     (let db_user = \<lparr>u_id = new_id dflt, u_email = uc_email usr,
                      u_created_at = utcnow dflt, u_video_quota = 10\<rparr>
      in if list_ex (\<lambda>u. u_email u = uc_email usr) (users db) then (Inl IntegrityError, db)
         else (Inr db_user, db\<lparr>users := users db @ [db_user]\<rparr>))"

text \<open>
  Offset and limit are applied as natural numbers; what a negative offset or limit does
  depends on the database and is outside the model.
\<close>

definition get_videos_by_user :: "database \<Rightarrow> int \<Rightarrow> int \<Rightarrow> int \<Rightarrow> video list" where
  "get_videos_by_user db uid skip limit =
     take (nat limit) (drop (nat skip) (filter (\<lambda>v. v_user_id v = uid) (videos db)))"

definition create_user_video ::
  "database \<Rightarrow> row_defaults \<Rightarrow> video_create \<Rightarrow> int \<Rightarrow> video \<times> database" where
  "create_user_video db dflt vid uid =
     (let db_video = \<lparr>v_id = new_id dflt, v_user_id = uid, v_title = vc_title vid,
                       v_original_text = vc_original_text vid, v_video_url = None,
                       v_template = vc_template vid, v_status = ''processing'',
                       v_created_at = utcnow dflt\<rparr>
      in (db_video, db\<lparr>videos := videos db @ [db_video]\<rparr>))"

section \<open>\<^verbatim>\<open>main.py\<close>\<close>

definition create_user ::
  "database \<Rightarrow> row_defaults \<Rightarrow> user_create \<Rightarrow> (exn + user) \<times> database" where
  "create_user db dflt usr =
     (case get_user_by_email db (uc_email usr) of
        Some db_user \<Rightarrow> (Inl (HTTPException 400 ''Email already registered''), db)
      | None \<Rightarrow> crud_create_user db dflt usr)"

definition read_user_videos :: "database \<Rightarrow> int \<Rightarrow> int \<Rightarrow> int \<Rightarrow> video list" where
  "read_user_videos db uid skip limit = get_videos_by_user db uid skip limit"

record generate_video_request =
  rq_text :: ustr
  rq_template :: ustr
  rq_voice_type :: string
  rq_user_id :: string

text \<open>The key written into the handler is a non-empty literal; its characters are left out.\<close>

definition handler_api_key :: string where
  "handler_api_key = ''sk_REDACTED''"

definition generate_video ::
  "env \<Rightarrow> world \<Rightarrow> generate_video_request \<Rightarrow> (exn + pipeline_result) \<times> world" where
  "generate_video env w req =
     process_video_pipeline env w (rq_text req) (rq_template req) (rq_voice_type req)
       (rq_user_id req) (os_path_join ''static'' ''videos'') 60 (Some handler_api_key)"

record video_status =
  vs_video_id :: string
  vs_status :: string
  vs_video_url :: string

definition get_video_status :: "string \<Rightarrow> video_status" where
  "get_video_status vid =
     \<lparr>vs_video_id = vid, vs_status = ''completed'', vs_video_url = ''/videos/sample.mp4''\<rparr>"

subsection \<open>The application as a whole\<close>

text \<open>
  The state of the running application is the database together with the world. An
  operation is one request to a route of \<^verbatim>\<open>main.py\<close>, or a call of
  \<^verbatim>\<open>crud.create_user_video\<close>, the one data-access function no route reaches. Only the
  routes that declare the dependency \<^verbatim>\<open>get_db\<close> are handed the database.
\<close>

record app =
  db :: database
  world :: world

datatype operation =
    CreateUser user_create
  | ReadUserVideos int int int
  | GenerateVideo generate_video_request
  | GetVideoStatus string
  | CreateUserVideo video_create int

datatype reply =
    UserReply "exn + user"
  | VideosReply "video list"
  | PipelineReply "exn + pipeline_result"
  | StatusReply video_status
  | VideoReply video

fun handle :: "env \<Rightarrow> row_defaults \<Rightarrow> operation \<Rightarrow> app \<Rightarrow> reply \<times> app" where
  "handle env dflt (CreateUser usr) a =
     (case create_user (db a) dflt usr of (r, d) \<Rightarrow> (UserReply r, a\<lparr>db := d\<rparr>))"
| "handle env dflt (ReadUserVideos uid skip limit) a =
     (VideosReply (read_user_videos (db a) uid skip limit), a)"
| "handle env dflt (GenerateVideo req) a =
     (case generate_video env (world a) req of (r, w) \<Rightarrow> (PipelineReply r, a\<lparr>world := w\<rparr>))"
| "handle env dflt (GetVideoStatus vid) a = (StatusReply (get_video_status vid), a)"
| "handle env dflt (CreateUserVideo vid uid) a =
     (case create_user_video (db a) dflt vid uid of (v, d) \<Rightarrow> (VideoReply v, a\<lparr>db := d\<rparr>))"

section \<open>Notions used in the statements\<close>

datatype stage = EnhanceText | GenerateImages | GenerateAudio | AssembleVideo

text \<open>The stage an interaction belongs to; creating a directory belongs to none.\<close>

fun stage_of :: "event \<Rightarrow> stage option" where
  "stage_of (MakeDirs _) = None"
| "stage_of (Generate _ _) = Some EnhanceText"
| "stage_of (LoadDiffusion _) = Some GenerateImages"
| "stage_of (PipeCall _) = Some GenerateImages"
| "stage_of (SaveImage _) = Some GenerateImages"
| "stage_of (HttpPost _ _ _) = Some GenerateAudio"
| "stage_of (OpenFile _) = Some GenerateAudio"
| "stage_of (WriteFile _) = Some GenerateAudio"
| "stage_of (RunTool _) = Some AssembleVideo"
| "stage_of (RemoveFile _) = Some AssembleVideo"

fun stage_rank :: "stage \<Rightarrow> nat" where
  "stage_rank EnhanceText = 1"
| "stage_rank GenerateImages = 2"
| "stage_rank GenerateAudio = 3"
| "stage_rank AssembleVideo = 4"

definition stages :: "event list \<Rightarrow> stage list" where
  "stages evs = List.map_filter stage_of evs"

text \<open>The paths a list of interactions creates or writes from the code itself.\<close>

fun written :: "event list \<Rightarrow> string list" where
  "written [] = []"
| "written (SaveImage p # evs) = p # written evs"
| "written (OpenFile p # evs) = p # written evs"
| "written (WriteFile p # evs) = p # written evs"
| "written (_ # evs) = written evs"

text \<open>The output paths of the commands a list of interactions runs.\<close>

fun tool_outputs :: "event list \<Rightarrow> string list" where
  "tool_outputs [] = []"
| "tool_outputs (RunTool cmd # evs) = last cmd # tool_outputs evs"
| "tool_outputs (_ # evs) = tool_outputs evs"

fun pipe_calls :: "event list \<Rightarrow> ustr list" where
  "pipe_calls [] = []"
| "pipe_calls (PipeCall p # evs) = p # pipe_calls evs"
| "pipe_calls (_ # evs) = pipe_calls evs"

fun saved_images :: "event list \<Rightarrow> string list" where
  "saved_images [] = []"
| "saved_images (SaveImage p # evs) = p # saved_images evs"
| "saved_images (_ # evs) = saved_images evs"

fun http_posts :: "event list \<Rightarrow> nat" where
  "http_posts [] = 0"
| "http_posts (HttpPost _ _ _ # evs) = Suc (http_posts evs)"
| "http_posts (_ # evs) = http_posts evs"

text \<open>The interactions a run adds to the trace.\<close>

definition new_events :: "world \<Rightarrow> world \<Rightarrow> event list" where
  "new_events w w' = drop (length (trace w)) (trace w')"


definition is_ok :: "'e + 'a \<Rightarrow> bool" where
  "is_ok r = (case r of Inl _ \<Rightarrow> False | Inr _ \<Rightarrow> True)"

text \<open>
  The prompts as the specification words them: the period-separated segments of the
  enhanced text are stripped, the empty ones dropped, the first three kept, and each is put
  behind the template and the words \<^verbatim>\<open>educational image:\<close>.
\<close>

definition spec_prompts :: "ustr \<Rightarrow> ustr \<Rightarrow> ustr list" where
  "spec_prompts template enhanced =
     map (\<lambda>seg. template @ ustr_of '' educational image: '' @ seg)
       (take 3 (filter (\<lambda>seg. seg \<noteq> []) (map str_strip (str_split period enhanced))))"

text \<open>A run reaches the external tool when the first interaction it adds is a command.\<close>

definition reaches_tool :: "world \<Rightarrow> world \<Rightarrow> bool" where
  "reaches_tool w w' = (case new_events w w' of RunTool _ # _ \<Rightarrow> True | _ \<Rightarrow> False)"

text \<open>An address is registered when a persisted user has it; the row an insert adds.\<close>

definition registered :: "database \<Rightarrow> string \<Rightarrow> bool" where
  "registered d email = (email \<in> set (map u_email (users d)))"

definition new_user :: "row_defaults \<Rightarrow> user_create \<Rightarrow> user" where
  "new_user dflt usr = \<lparr>u_id = new_id dflt, u_email = uc_email usr,
                         u_created_at = utcnow dflt, u_video_quota = 10\<rparr>"

text \<open>
  The paths of \<open>n\<close> images in the directory \<open>d\<close>, numbered from \<open>i + 1\<close>; a diffusion call
  is good when it returns at least one image.
\<close>

definition img_paths :: "string \<Rightarrow> nat \<Rightarrow> nat \<Rightarrow> string list" where
  "img_paths d i n = map (\<lambda>k. os_path_join d (img_name k)) [i..<i + n]"

definition pipe_ok :: "env \<Rightarrow> string \<Rightarrow> ustr \<Rightarrow> bool" where
  "pipe_ok env model_id prompt =
     (case pipe_images env model_id prompt of Inl _ \<Rightarrow> False | Inr imgs \<Rightarrow> imgs \<noteq> [])"

text \<open>The image that \<^verbatim>\<open>pipe(prompt).images[0]\<close> is, when there is one.\<close>

definition first_image :: "env \<Rightarrow> string \<Rightarrow> ustr \<Rightarrow> string option" where
  "first_image env model_id prompt =
     (case pipe_images env model_id prompt of
        Inl _ \<Rightarrow> None
      | Inr imgs \<Rightarrow> (case imgs of [] \<Rightarrow> None | img # _ \<Rightarrow> Some img))"

text \<open>
  The outside does not fail: no call into the file system raises, the diffusion model loads
  and returns an image for every prompt, the speech endpoint answers every request with
  status 200, and every command exits with status 0 and leaves its output.
\<close>

definition cooperative :: "env \<Rightarrow> bool" where
  "cooperative env =
     ((\<forall>h c. fs_fault env h c = None)
      \<and> from_pretrained env default_model_id = Inr ()
      \<and> (\<forall>p. pipe_ok env default_model_id p)
      \<and> (\<forall>url headers payload. \<exists>resp.
             requests_post env url headers payload = Inr resp \<and> status_code resp = 200)
      \<and> (\<forall>cmd fs. \<exists>out. run_tool env cmd fs = Inr (0, Some out)))"

subsection \<open>Canned collaborators\<close>

text \<open>
  A fixed outside for running the code on concrete inputs: the language model appends a
  sentence, the speech endpoint answers with the given status and a fixed body, the
  diffusion model returns one image that carries the sum of the code points of the prompt,
  the media tool succeeds and leaves an output that depends on the command, the file system
  never raises, and the floats are printed as Python prints them, for the divisors of the
  table.
\<close>

definition recip_table :: "(int \<times> string) list" where
  "recip_table =
     [(1, ''1.0''), (- 1, ''-1.0''), (2, ''0.5''), (3, ''0.3333333333333333''),
      (20, ''0.05''), (30, ''0.03333333333333333''), (60, ''0.016666666666666666'')]"

definition canned_env :: "int \<Rightarrow> env" where
  "canned_env status =
     \<lparr>text_generation = (\<lambda>m t. Inr (t @ ustr_of ''. Water boils.'')),
      requests_post = (\<lambda>url headers payload.
         Inr \<lparr>status_code = status, content = ''ID3'', resp_text = ''body''\<rparr>),
      from_pretrained = (\<lambda>m. Inr ()),
      pipe_images = (\<lambda>m p. Inr [''PNG '' @ str_nat (sum_list p)]),
      run_tool = (\<lambda>cmd fs. Inr (0, Some (''MP4 of '' @ concat cmd))),
      float_recip_str = (\<lambda>d. case map_of recip_table d of Some s \<Rightarrow> s | None \<Rightarrow> ''nan''),
      os_urandom = (\<lambda>n. 0),
      fs_fault = (\<lambda>h c. None)\<rparr>"


definition empty_world :: world where
  "empty_world = \<lparr>files = Map.empty, environ = Map.empty, rng_pos = 0, trace = []\<rparr>"

definition empty_db :: database where
  "empty_db = \<lparr>users = [], videos = []\<rparr>"

text \<open>
  The input text of the run: three sentences with blanks of several kinds around them, among
  them U+00A0, U+0085, U+1680, U+2003 and U+3000, a segment of blanks only and an empty
  one. With the sentence the language model appends there are four sentences.
\<close>

definition sample_text :: ustr where
  "sample_text =
     [0x20, 0xA0] @ ustr_of ''Ice melts'' @ [0x3000, 0x09] @ ustr_of ''.'' @ [0x85, 0x2003]
       @ ustr_of ''..'' @ [0x0A] @ ustr_of ''Steam rises'' @ [0x1F, 0x2028] @ ustr_of ''.''
       @ [0x1680] @ ustr_of ''Fog lifts''"

text \<open>One run of the pipeline on the canned collaborators, from the empty world.\<close>

definition sample_run :: "(exn + pipeline_result) \<times> world" where
  "sample_run =
     process_video_pipeline (canned_env 200) empty_world sample_text (ustr_of ''flat'')
       ''Rachel'' ''7'' ''static/videos'' 60 (Some ''k'')"

definition sample_job_dir :: string where
  "sample_job_dir = ''static/videos/00000000-0000-4000-8000-000000000000''"

text \<open>A database with one user and one video.\<close>

definition sample_db :: database where
  "sample_db = \<lparr>users = [\<lparr>u_id = 1, u_email = ''ada@example.org'', u_created_at = 0,
                           u_video_quota = 10\<rparr>],
                videos = [\<lparr>v_id = 1, v_user_id = 1, v_title = ''Ice'', v_original_text = ''Ice melts.'',
                            v_video_url = None, v_template = ''flat'', v_status = ''processing'',
                            v_created_at = 0\<rparr>]\<rparr>"

section \<open>Video assembly: the divisions\<close>

lemma new_events_log [simp]: "new_events w w = []"
  by (simp add: new_events_def)

lemma img_duration_nonempty:
  "imgs \<noteq> [] \<Longrightarrow>
     img_duration duration imgs = Inr (duration div int (length imgs))"
  by (simp add: img_duration_def py_floordiv_def)

lemma floordiv_zero_iff:
  fixes a b :: int
  assumes "0 < b"
  shows "(a div b = 0) = (0 \<le> a \<and> a < b)"
  using assms by (auto simp: zdiv_eq_0_iff)

lemma subprocess_run_trace:
  "trace (snd (subprocess_run env w cmd)) = trace w @ [RunTool cmd]"
  by (simp add: subprocess_run_def log_event_def Let_def split: sum.splits prod.splits)

lemma os_remove_trace:
  "\<exists>evs. trace (snd (os_remove env w p)) = trace w @ evs"
  by (simp add: os_remove_def fs_call_def log_event_def delete_file_def split: option.splits)

text \<open>
  Claim C3, as the code has it. On an empty image list \<open>assemble_video\<close> fails with
  \<open>IndexError\<close>: the read of \<^verbatim>\<open>image_paths[0]\<close> comes before the division of the
  duration by the number of images, which is never reached. No command is run and the
  world is unchanged.
\<close>

theorem assemble_video_empty:
  "assemble_video env w [] apath out duration m = (Inl IndexError, w)"
  by (simp add: assemble_video_def)

text \<open>
  Claim C3 as stated names the division as the failing operation; on the empty list the
  exception is the \<open>IndexError\<close> of the read before it, not a division error.
\<close>

theorem assemble_video_empty_counterexample:
  "fst (assemble_video (canned_env 200) empty_world [] ''audio.mp3'' ''output.mp4'' 60 None)
     = Inl IndexError
   \<and> fst (assemble_video (canned_env 200) empty_world [] ''audio.mp3'' ''output.mp4'' 60 None)
     \<noteq> Inl (ZeroDivisionError FloorDiv)"
  by (simp add: assemble_video_def)

lemma assemble_video_zero:
  assumes "imgs \<noteq> []" "duration div int (length imgs) = 0"
  shows "assemble_video env w imgs a out duration m = (Inl (ZeroDivisionError TrueDiv), w)"
  using assms
  by (cases imgs) (simp_all add: assemble_video_def img_duration_def py_floordiv_def py_recip_str_def)

lemma assemble_video_first_event:
  assumes "imgs \<noteq> []" "duration div int (length imgs) = d" "d \<noteq> 0"
  shows "\<exists>evs. trace (snd (assemble_video env w imgs a out duration m)) =
           trace w @ RunTool (ffmpeg_img_cmd (float_recip_str env d)
              (os_path_join (os_path_dirname (hd imgs)) ''img_%d.png'')
              (str_replace ''.mp4'' ''_tmp.mp4'' out)) # evs"
proof -
  obtain p ps where ip: "imgs = p # ps" using assms(1) by (cases imgs) auto
  let ?c1 = "ffmpeg_img_cmd (float_recip_str env d) (os_path_join (os_path_dirname p) ''img_%d.png'')
              (str_replace ''.mp4'' ''_tmp.mp4'' out)"
  let ?c2 = "ffmpeg_audio_cmd (str_replace ''.mp4'' ''_tmp.mp4'' out) a out"
  obtain r1 w1 where s1: "subprocess_run env w ?c1 = (r1, w1)" by (cases "subprocess_run env w ?c1")
  have t1: "trace w1 = trace w @ [RunTool ?c1]" using subprocess_run_trace[of env w ?c1] s1 by simp
  obtain r2 w2 where s2: "subprocess_run env w1 ?c2 = (r2, w2)" by (cases "subprocess_run env w1 ?c2")
  have t2: "trace w2 = trace w1 @ [RunTool ?c2]" using subprocess_run_trace[of env w1 ?c2] s2 by simp
  obtain r3 w3 where s3: "os_remove env w2 (str_replace ''.mp4'' ''_tmp.mp4'' out) = (r3, w3)"
    by (cases "os_remove env w2 (str_replace ''.mp4'' ''_tmp.mp4'' out)")
  obtain evs3 where t3: "trace w3 = trace w2 @ evs3"
    using os_remove_trace[of env w2 "str_replace ''.mp4'' ''_tmp.mp4'' out"] s3 by auto
  have d: "img_duration duration (p # ps) = Inr d"
    using assms(2) ip by (simp add: img_duration_def py_floordiv_def)
  show ?thesis
    using assms(3) d s1 s2 s3 t1 t2 t3 unfolding ip
    by (auto simp: assemble_video_def py_recip_str_def Let_def split: sum.splits)
qed


lemma reaches_tool_iff:
  assumes "imgs \<noteq> []"
  shows "reaches_tool w (snd (assemble_video env w imgs a out duration m))
           = (duration div int (length imgs) \<noteq> 0)"
proof (cases "duration div int (length imgs) = 0")
  case True
  then show ?thesis
    using assemble_video_zero[OF assms True, of env w a out m] by (simp add: reaches_tool_def)
next
  case False
  then show ?thesis
    using assemble_video_first_event[OF assms refl False, of env w a out m]
    by (auto simp: reaches_tool_def new_events_def)
qed

text \<open>
  Claim C4, amended to durations that are not negative. For a non-empty image list the
  per-image duration is the floor of the duration divided by the number of images; it is
  zero exactly when the duration is at least zero and less than the number of images, and
  then the frame rate \<^verbatim>\<open>1/img_duration\<close> raises \<open>ZeroDivisionError\<close> before any command
  is run. The first command is reached exactly in the other case: when the number of images
  is at most the duration, or the duration is negative.
\<close>

theorem assemble_video_division_error:
  assumes "imgs \<noteq> []"
  shows "img_duration duration imgs = Inr (duration div int (length imgs))
     \<and> (duration div int (length imgs) = 0) = (0 \<le> duration \<and> duration < int (length imgs))
     \<and> reaches_tool w (snd (assemble_video env w imgs a out duration m))
          = (\<not> (0 \<le> duration \<and> duration < int (length imgs)))
     \<and> (0 \<le> duration \<and> duration < int (length imgs) \<longrightarrow>
          assemble_video env w imgs a out duration m = (Inl (ZeroDivisionError TrueDiv), w))"
proof -
  have pos: "0 < int (length imgs)" using assms by simp
  note z = floordiv_zero_iff[OF pos, of duration]
  show ?thesis
    using img_duration_nonempty[OF assms, of duration] z
      reaches_tool_iff[OF assms, of w env a out duration m]
      assemble_video_zero[OF assms, of duration env w a out m]
    by simp
qed

theorem assemble_video_division_error_witness:
  "[''d/img_1.png'', ''d/img_2.png'', ''d/img_3.png''] \<noteq> []
   \<and> (0::int) \<le> 2 \<and> 2 < int (length [''d/img_1.png'', ''d/img_2.png'', ''d/img_3.png''])
   \<and> assemble_video (canned_env 200) empty_world
        [''d/img_1.png'', ''d/img_2.png'', ''d/img_3.png''] ''audio.mp3'' ''output.mp4'' 2 None
      = (Inl (ZeroDivisionError TrueDiv), empty_world)"
  using assemble_video_division_error
    [of "[''d/img_1.png'', ''d/img_2.png'', ''d/img_3.png'']" 2 empty_world "canned_env 200"
        "''audio.mp3''" "''output.mp4''" None]
  by simp

text \<open>
  Claim C4 as stated fails for a negative duration: one image and the duration \<open>-1\<close>
  give the per-image duration \<open>-1\<close>, no division error, and the commands run, although
  the number of images exceeds the duration.
\<close>

theorem assemble_video_negative_duration_counterexample:
  "- 1 < int (length [''d/img_1.png''])
   \<and> img_duration (- 1) [''d/img_1.png''] = Inr (- 1)
   \<and> fst (assemble_video (canned_env 200) empty_world [''d/img_1.png''] ''audio.mp3''
             ''output.mp4'' (- 1) None) = Inr ''output.mp4''"
  by (simp add: assemble_video_def img_duration_def py_floordiv_def py_recip_str_def
        subprocess_run_def os_remove_def fs_call_def log_event_def delete_file_def
        canned_env_def recip_table_def empty_world_def
        ffmpeg_img_cmd_def ffmpeg_audio_cmd_def Let_def)

text \<open>
  Claim C5, amended to floor division. For a non-empty image list every image gets the
  same per-image duration, the floor of the duration divided by the number of images (it is
  the reciprocal of the frame rate of the first command). These durations sum to the
  duration less its remainder modulo the number of images, hence to the duration itself
  exactly when the number of images divides it.
\<close>

theorem assemble_video_per_image_duration:
  assumes "imgs \<noteq> []"
  shows "img_duration duration imgs = Inr (duration div int (length imgs))
     \<and> sum_list (map (\<lambda>p. duration div int (length imgs)) imgs)
          = duration - duration mod int (length imgs)
     \<and> (sum_list (map (\<lambda>p. duration div int (length imgs)) imgs) = duration)
          = (int (length imgs) dvd duration)
     \<and> (duration div int (length imgs) \<noteq> 0 \<longrightarrow>
          take 1 (new_events w (snd (assemble_video env w imgs a out duration m)))
            = [RunTool (ffmpeg_img_cmd (float_recip_str env (duration div int (length imgs)))
                 (os_path_join (os_path_dirname (hd imgs)) ''img_%d.png'')
                 (str_replace ''.mp4'' ''_tmp.mp4'' out))])"
proof -
  let ?n = "int (length imgs)"
  have s: "sum_list (map (\<lambda>p. duration div ?n) imgs) = ?n * (duration div ?n)"
    by (simp add: sum_list_triv)
  have e: "?n * (duration div ?n) = duration - duration mod ?n"
    by (simp add: minus_mod_eq_mult_div)
  have d: "(duration - duration mod ?n = duration) = (?n dvd duration)"
    by (auto simp: mod_eq_0_iff_dvd)
  have t: "duration div ?n \<noteq> 0 \<Longrightarrow>
          take 1 (new_events w (snd (assemble_video env w imgs a out duration m)))
            = [RunTool (ffmpeg_img_cmd (float_recip_str env (duration div ?n))
                 (os_path_join (os_path_dirname (hd imgs)) ''img_%d.png'')
                 (str_replace ''.mp4'' ''_tmp.mp4'' out))]"
    using assemble_video_first_event[OF assms refl, of duration env w a out m]
    by (auto simp: new_events_def)
  show ?thesis
    using img_duration_nonempty[OF assms, of duration] s e d t by simp
qed

theorem assemble_video_per_image_duration_witness:
  "[''d/img_1.png'', ''d/img_2.png'', ''d/img_3.png''] \<noteq> []
   \<and> img_duration 10 [''d/img_1.png'', ''d/img_2.png'', ''d/img_3.png''] = Inr 3
   \<and> sum_list (map (\<lambda>p. 10 div int (length [''d/img_1.png'', ''d/img_2.png'', ''d/img_3.png'']))
         [''d/img_1.png'', ''d/img_2.png'', ''d/img_3.png'']) = (9::int)
   \<and> (10::int) div int (length [''d/img_1.png'', ''d/img_2.png'', ''d/img_3.png'']) \<noteq> 0
   \<and> take 1 (new_events empty_world (snd (assemble_video (canned_env 200) empty_world
         [''d/img_1.png'', ''d/img_2.png'', ''d/img_3.png''] ''audio.mp3'' ''output.mp4'' 10 None)))
       = [RunTool (ffmpeg_img_cmd ''0.3333333333333333'' ''d/img_%d.png'' ''output_tmp.mp4'')]"
proof -
  have r: "str_replace ''.mp4'' ''_tmp.mp4'' ''output.mp4'' = ''output_tmp.mp4''"
    by (simp add: str_replace.simps)
  have j: "os_path_join (os_path_dirname ''d/img_1.png'') ''img_%d.png'' = ''d/img_%d.png''"
    by (simp add: os_path_join_def os_path_dirname_def sep_def)
  have f: "float_recip_str (canned_env 200) 3 = ''0.3333333333333333''"
    by (simp add: canned_env_def recip_table_def)
  show ?thesis
    using assemble_video_per_image_duration
      [of "[''d/img_1.png'', ''d/img_2.png'', ''d/img_3.png'']" 10 empty_world "canned_env 200"
          "''audio.mp3''" "''output.mp4''" None] r j f
    by simp
qed

text \<open>
  Claim C5 as stated fails when the number of images does not divide the duration: with a
  duration of 10 and three images each image gets 3, and the sum is 9.
\<close>

theorem assemble_video_uneven_counterexample:
  "img_duration 10 [''d/img_1.png'', ''d/img_2.png'', ''d/img_3.png''] = Inr 3
   \<and> sum_list (map (\<lambda>p. 3) [''d/img_1.png'', ''d/img_2.png'', ''d/img_3.png'']) \<noteq> (10::int)"
  by (simp add: img_duration_def py_floordiv_def)

section \<open>Text to speech: the status of the response\<close>

lemma new_events_append [simp]: "trace w' = trace w @ evs \<Longrightarrow> new_events w w' = evs"
  by (simp add: new_events_def)

lemma generate_audio_no_key:
  assumes "resolve_api_key w api_key = None \<or> resolve_api_key w api_key = Some []"
  shows "generate_audio env w speech voice out speed api_key
           = (Inl (RuntimeError no_key_message), w)"
  using assms by (auto simp: generate_audio_def)

lemma generate_audio_posts_le:
  "http_posts (new_events w (snd (generate_audio env w speech voice out speed api_key))) \<le> 1"
  by (auto simp: generate_audio_def open_wb_def file_write_def fs_call_def log_event_def
        write_file_def Let_def new_events_def
      split: option.splits sum.splits)

text \<open>On status 200 an output path that cannot be opened makes the function raise.\<close>

lemma generate_audio_unwritable:
  assumes "resolve_api_key w api_key = Some k" and "k \<noteq> []"
    and "requests_post env (tts_url voice) (tts_headers k) (tts_payload speech) = Inr resp"
    and "status_code resp = 200"
  shows "fst (generate_audio env w speech voice [] speed api_key) = Inl (FileNotFoundError [])"
    and "fs_fault env (trace w @ [HttpPost (tts_url voice) (tts_headers k) (tts_payload speech)])
           (OpenFile out) = Some e
         \<Longrightarrow> out \<noteq> [] \<Longrightarrow> fst (generate_audio env w speech voice out speed api_key) = Inl e"
  using assms
  by (simp_all add: generate_audio_def open_wb_def fs_call_def log_event_def Let_def)

text \<open>
  Claim C2, amended to the status the code tests and to a path that can be written. With a
  non-empty key, a response from the endpoint and an output path that is not empty and that
  the file system lets the code open and write, \<open>generate_audio\<close> raises exactly when the
  status code is not 200. On status 200 it writes the bytes of the response, and nothing
  else, to the given path and returns that path; on any other status it raises and writes
  nothing. In both cases it sends exactly one request: there is no retry.
\<close>

theorem generate_audio_status:
  assumes "resolve_api_key w api_key = Some k" and "k \<noteq> []"
    and "requests_post env (tts_url voice) (tts_headers k) (tts_payload speech) = Inr resp"
    and "out \<noteq> []"
    and "fs_fault env (trace w @ [HttpPost (tts_url voice) (tts_headers k) (tts_payload speech)])
           (OpenFile out) = None"
    and "fs_fault env (trace w @ [HttpPost (tts_url voice) (tts_headers k) (tts_payload speech),
                                  OpenFile out])
           (WriteFile out) = None"
  shows "is_ok (fst (generate_audio env w speech voice out speed api_key))
           = (status_code resp = 200)
     \<and> fst (generate_audio env w speech voice out speed api_key)
          = (if status_code resp = 200 then Inr out else Inl (tts_error resp))
     \<and> files (snd (generate_audio env w speech voice out speed api_key))
          = (if status_code resp = 200 then (files w)(out \<mapsto> content resp) else files w)
     \<and> new_events w (snd (generate_audio env w speech voice out speed api_key))
          = HttpPost (tts_url voice) (tts_headers k) (tts_payload speech)
              # (if status_code resp = 200 then [OpenFile out, WriteFile out] else [])
     \<and> http_posts (new_events w (snd (generate_audio env w speech voice out speed api_key))) = 1"
  using assms
  by (simp add: generate_audio_def open_wb_def file_write_def fs_call_def log_event_def
        write_file_def Let_def new_events_def is_ok_def)

theorem generate_audio_status_witness:
  "resolve_api_key empty_world (Some ''k'') = Some ''k'' \<and> ''k'' \<noteq> []
   \<and> requests_post (canned_env 200) (tts_url ''Rachel'') (tts_headers ''k'')
          (tts_payload (ustr_of ''hi''))
        = Inr \<lparr>status_code = 200, content = ''ID3'', resp_text = ''body''\<rparr>
   \<and> ''out.mp3'' \<noteq> []
   \<and> fs_fault (canned_env 200)
        (trace empty_world
           @ [HttpPost (tts_url ''Rachel'') (tts_headers ''k'') (tts_payload (ustr_of ''hi''))])
        (OpenFile ''out.mp3'') = None
   \<and> fs_fault (canned_env 200)
        (trace empty_world
           @ [HttpPost (tts_url ''Rachel'') (tts_headers ''k'') (tts_payload (ustr_of ''hi'')),
              OpenFile ''out.mp3''])
        (WriteFile ''out.mp3'') = None
   \<and> fst (generate_audio (canned_env 200) empty_world (ustr_of ''hi'') ''Rachel'' ''out.mp3'' 1
            (Some ''k''))
        = Inr ''out.mp3''
   \<and> files (snd (generate_audio (canned_env 200) empty_world (ustr_of ''hi'') ''Rachel''
         ''out.mp3'' 1 (Some ''k''))) ''out.mp3'' = Some ''ID3''"
proof -
  have k: "resolve_api_key empty_world (Some ''k'') = Some ''k''"
    by (simp add: resolve_api_key_def)
  have n: "''k'' \<noteq> []" by simp
  have r: "requests_post (canned_env 200) (tts_url ''Rachel'') (tts_headers ''k'')
          (tts_payload (ustr_of ''hi''))
        = Inr \<lparr>status_code = 200, content = ''ID3'', resp_text = ''body''\<rparr>"
    by (simp add: canned_env_def)
  have p: "''out.mp3'' \<noteq> []" by simp
  have f: "fs_fault (canned_env 200) h c = None" for h c
    by (simp add: canned_env_def)
  show ?thesis
    using generate_audio_status[OF k n r p f f, of 1] k r f by simp
qed

text \<open>
  Claim C2 as stated fails on a success status other than 200: the answer 201 is a 2xx
  status, and the code raises and writes no file.
\<close>

theorem generate_audio_201_counterexample:
  "(200::int) \<le> 201 \<and> (201::int) < 300
   \<and> requests_post (canned_env 201) (tts_url ''Rachel'') (tts_headers ''k'')
          (tts_payload (ustr_of ''hi''))
        = Inr \<lparr>status_code = 201, content = ''ID3'', resp_text = ''body''\<rparr>
   \<and> fst (generate_audio (canned_env 201) empty_world (ustr_of ''hi'') ''Rachel'' ''out.mp3'' 1
            (Some ''k''))
        = Inl (RuntimeError ''TTS API error: 201 body'')
   \<and> files (snd (generate_audio (canned_env 201) empty_world (ustr_of ''hi'') ''Rachel''
         ''out.mp3'' 1 (Some ''k''))) ''out.mp3'' = None"
  by (simp add: generate_audio_def resolve_api_key_def canned_env_def empty_world_def
        log_event_def tts_error_def str_int_def str_nat.simps digit_char_def Let_def)

section \<open>The routes and the database\<close>

lemma get_user_by_email_None:
  "(get_user_by_email d email = None) = (\<not> registered d email)"
  by (auto simp: get_user_by_email_def registered_def find_None_iff)

lemma list_ex_registered:
  "list_ex (\<lambda>u. u_email u = email) (users d) = registered d email"
  by (auto simp: registered_def list_ex_iff)

text \<open>
  Claim C9. The route that creates a user fails with the HTTP error 400
  \<^verbatim>\<open>Email already registered\<close> exactly when a persisted user has the requested address,
  and then the database is unchanged. Otherwise it appends one user with that address to
  the table and returns it; the unique constraint of the column never fires, and addresses
  that were pairwise distinct stay so.
\<close>

theorem create_user_already_registered:
  "fst (create_user d dflt usr)
     = (if registered d (uc_email usr) then Inl (HTTPException 400 ''Email already registered'')
        else Inr (new_user dflt usr))
   \<and> snd (create_user d dflt usr)
     = (if registered d (uc_email usr) then d
        else d\<lparr>users := users d @ [new_user dflt usr]\<rparr>)
   \<and> u_email (new_user dflt usr) = uc_email usr
   \<and> (distinct (map u_email (users d))
        \<longrightarrow> distinct (map u_email (users (snd (create_user d dflt usr)))))"
proof (cases "get_user_by_email d (uc_email usr)")
  case None
  then have n: "\<not> registered d (uc_email usr)"
    using get_user_by_email_None[of d "uc_email usr"] by simp
  then show ?thesis
    using None list_ex_registered[of "uc_email usr" d]
    by (auto simp: create_user_def crud_create_user_def new_user_def Let_def registered_def)
next
  case (Some u)
  then have "registered d (uc_email usr)"
    using get_user_by_email_None[of d "uc_email usr"] by auto
  then show ?thesis
    using Some by (simp add: create_user_def new_user_def)
qed

theorem create_user_already_registered_witness:
  "distinct (map u_email (users sample_db))
   \<and> distinct (map u_email (users (snd (create_user sample_db \<lparr>new_id = 2, utcnow = 5\<rparr>
         \<lparr>uc_email = ''bob@example.org''\<rparr>))))
   \<and> fst (create_user sample_db \<lparr>new_id = 2, utcnow = 5\<rparr> \<lparr>uc_email = ''bob@example.org''\<rparr>)
       = Inr \<lparr>u_id = 2, u_email = ''bob@example.org'', u_created_at = 5, u_video_quota = 10\<rparr>
   \<and> create_user sample_db \<lparr>new_id = 2, utcnow = 5\<rparr> \<lparr>uc_email = ''ada@example.org''\<rparr>
       = (Inl (HTTPException 400 ''Email already registered''), sample_db)"
proof -
  have d: "distinct (map u_email (users sample_db))" by (simp add: sample_db_def)
  have r: "\<not> registered sample_db ''bob@example.org''" "registered sample_db ''ada@example.org''"
    by (simp_all add: registered_def sample_db_def)
  show ?thesis
    using create_user_already_registered
        [of sample_db "\<lparr>new_id = 2, utcnow = 5\<rparr>" "\<lparr>uc_email = ''bob@example.org''\<rparr>"]
      create_user_already_registered
        [of sample_db "\<lparr>new_id = 2, utcnow = 5\<rparr>" "\<lparr>uc_email = ''ada@example.org''\<rparr>"]
      d r
    by (simp add: new_user_def prod_eq_iff sample_db_def)
qed

lemma handle_videos:
  "\<exists>vs. videos (db (snd (handle env dflt op a))) = videos (db a) @ vs
        \<and> list_all (\<lambda>v. v_status v = ''processing'') vs"
proof (cases op)
  case (CreateUser usr)
  then show ?thesis
    by (auto simp: create_user_def crud_create_user_def Let_def split: option.splits prod.splits)
next
  case (CreateUserVideo vid uid)
  then show ?thesis by (simp add: create_user_video_def Let_def)
next
  case (GenerateVideo req)
  then show ?thesis by (simp split: prod.splits)
qed simp_all

text \<open>
  Claim C10. A video row is created with the status \<^verbatim>\<open>processing\<close>. Whatever the
  operation, the rows of the video table that were persisted before it are there after it,
  unchanged and in the same places, and every row it adds has the status
  \<^verbatim>\<open>processing\<close>: nothing moves a status. The status route answers \<^verbatim>\<open>completed\<close> and
  the fixed sample address for every identifier and every state, and changes nothing.
\<close>

theorem video_status_processing:
  "v_status (fst (create_user_video d dflt vid uid)) = ''processing''
   \<and> videos (snd (create_user_video d dflt vid uid))
        = videos d @ [fst (create_user_video d dflt vid uid)]
   \<and> take (length (videos (db a))) (videos (db (snd (handle env dflt op a)))) = videos (db a)
   \<and> list_all (\<lambda>v. v_status v = ''processing'')
        (drop (length (videos (db a))) (videos (db (snd (handle env dflt op a)))))
   \<and> get_video_status i
        = \<lparr>vs_video_id = i, vs_status = ''completed'', vs_video_url = ''/videos/sample.mp4''\<rparr>
   \<and> handle env dflt (GetVideoStatus i) a
        = (StatusReply \<lparr>vs_video_id = i, vs_status = ''completed'',
                         vs_video_url = ''/videos/sample.mp4''\<rparr>, a)"
proof -
  obtain vs where v: "videos (db (snd (handle env dflt op a))) = videos (db a) @ vs"
      "list_all (\<lambda>v. v_status v = ''processing'') vs"
    using handle_videos[of env dflt op a] by auto
  show ?thesis using v
    by (simp add: create_user_video_def get_video_status_def Let_def)
qed

text \<open>
  Claim C7. A request to generate a video leaves the database as it is, the user table and
  the video table included; the reply is the outcome of the pipeline itself, run on the
  text, template and voice of the request in the directory \<^verbatim>\<open>static/videos\<close> with a
  duration of 60, and the world after the request is the one the pipeline leaves.
\<close>

theorem generate_video_leaves_database:
  "db (snd (handle env dflt (GenerateVideo req) a)) = db a
   \<and> users (db (snd (handle env dflt (GenerateVideo req) a))) = users (db a)
   \<and> videos (db (snd (handle env dflt (GenerateVideo req) a))) = videos (db a)
   \<and> fst (handle env dflt (GenerateVideo req) a)
       = PipelineReply (fst (process_video_pipeline env (world a) (rq_text req) (rq_template req)
           (rq_voice_type req) (rq_user_id req) ''static/videos'' 60 (Some handler_api_key)))
   \<and> world (snd (handle env dflt (GenerateVideo req) a))
       = snd (process_video_pipeline env (world a) (rq_text req) (rq_template req)
           (rq_voice_type req) (rq_user_id req) ''static/videos'' 60 (Some handler_api_key))"
proof -
  have j: "os_path_join ''static'' ''videos'' = ''static/videos''"
    by (simp add: os_path_join_def sep_def)
  show ?thesis
    by (simp add: generate_video_def j split: prod.splits)
qed

section \<open>Image generation\<close>

lemma stages_append [simp]: "stages (xs @ ys) = stages xs @ stages ys"
  by (simp add: stages_def map_filter_def)

lemma stages_Nil [simp]: "stages [] = []"
  by (simp add: stages_def)

lemma stages_Cons [simp]:
  "stages (e # evs) = (case stage_of e of None \<Rightarrow> stages evs | Some s \<Rightarrow> s # stages evs)"
  by (simp add: stages_def split: option.splits)

lemma written_append [simp]: "written (xs @ ys) = written xs @ written ys"
  by (induction xs rule: written.induct) simp_all

lemma tool_outputs_append [simp]: "tool_outputs (xs @ ys) = tool_outputs xs @ tool_outputs ys"
  by (induction xs rule: tool_outputs.induct) simp_all

lemma pipe_calls_append [simp]: "pipe_calls (xs @ ys) = pipe_calls xs @ pipe_calls ys"
  by (induction xs rule: pipe_calls.induct) simp_all

lemma saved_images_append [simp]: "saved_images (xs @ ys) = saved_images xs @ saved_images ys"
  by (induction xs rule: saved_images.induct) simp_all

lemma http_posts_append [simp]: "http_posts (xs @ ys) = http_posts xs + http_posts ys"
  by (induction xs rule: http_posts.induct) simp_all

lemma img_paths_0 [simp]: "img_paths d i 0 = []"
  by (simp add: img_paths_def)

lemma img_paths_Suc: "img_paths d i (Suc n) = os_path_join d (img_name i) # img_paths d (Suc i) n"
  by (simp add: img_paths_def upt_rec)

lemma length_img_paths [simp]: "length (img_paths d i n) = n"
  by (simp add: img_paths_def)

lemma set_img_paths: "p \<in> set (img_paths d i n) \<Longrightarrow> \<exists>k. p = os_path_join d (img_name k)"
  by (auto simp: img_paths_def)

lemma img_paths_nth:
  "i < n \<Longrightarrow> img_paths d 0 n ! i = os_path_join d (''img_'' @ str_nat (i + 1) @ ''.png'')"
  by (simp add: img_paths_def img_name_def)

subsection \<open>The names of the images differ\<close>

lemma digit_char_inj: "i < 10 \<Longrightarrow> j < 10 \<Longrightarrow> digit_char i = digit_char j \<Longrightarrow> i = j"
proof -
  assume a: "i < 10" "j < 10" "digit_char i = digit_char j"
  have d: "distinct ''0123456789''" by simp
  have l: "length ''0123456789'' = 10" by simp
  have "''0123456789'' ! i = ''0123456789'' ! j" using a by (simp add: digit_char_def)
  then show "i = j" using nth_eq_iff_index_eq[OF d, of i j] a(1,2) l by metis
qed

lemma str_nat_nonempty: "str_nat n \<noteq> []"
  by (subst str_nat.simps) simp

lemma str_nat_inj: "str_nat a = str_nat b \<Longrightarrow> a = b"
proof (induction a arbitrary: b rule: str_nat.induct)
  case (1 a)
  show ?case
  proof (cases "a < 10")
    case True
    then have sa: "str_nat a = [digit_char a]" by (simp add: str_nat.simps[of a])
    show ?thesis
    proof (cases "b < 10")
      case b: True
      then have "str_nat b = [digit_char b]" by (simp add: str_nat.simps[of b])
      then show ?thesis using sa "1.prems" True b digit_char_inj by simp
    next
      case b: False
      then have "str_nat b = str_nat (b div 10) @ [digit_char (b mod 10)]"
        by (simp add: str_nat.simps[of b])
      then have "length (str_nat b) \<ge> 2"
        using str_nat_nonempty[of "b div 10"] by (cases "str_nat (b div 10)") simp_all
      then show ?thesis using sa "1.prems" by simp
    qed
  next
    case False
    then have sa: "str_nat a = str_nat (a div 10) @ [digit_char (a mod 10)]"
      by (simp add: str_nat.simps[of a])
    show ?thesis
    proof (cases "b < 10")
      case b: True
      then have "str_nat b = [digit_char b]" by (simp add: str_nat.simps[of b])
      moreover have "length (str_nat a) \<ge> 2"
        using sa str_nat_nonempty[of "a div 10"] by (cases "str_nat (a div 10)") simp_all
      ultimately show ?thesis using "1.prems" by simp
    next
      case b: False
      then have sb: "str_nat b = str_nat (b div 10) @ [digit_char (b mod 10)]"
        by (simp add: str_nat.simps[of b])
      have e: "str_nat (a div 10) = str_nat (b div 10)"
        "digit_char (a mod 10) = digit_char (b mod 10)"
        using sa sb "1.prems" by simp_all
      have q: "a div 10 = b div 10" using "1.IH"[OF False e(1)] .
      have m: "a mod 10 = b mod 10" using digit_char_inj[OF _ _ e(2)] by simp
      show ?thesis using q m by (metis div_mult_mod_eq)
    qed
  qed
qed

lemma img_name_inj: "img_name i = img_name j \<Longrightarrow> i = j"
  using str_nat_inj[of "i + 1" "j + 1"] by (simp add: img_name_def)

lemma os_path_join_img_inj:
  "os_path_join d (img_name i) = os_path_join d (img_name j) \<Longrightarrow> i = j"
proof -
  assume a: "os_path_join d (img_name i) = os_path_join d (img_name j)"
  have h: "img_name k \<noteq> [] \<and> hd (img_name k) \<noteq> sep" for k
    by (simp add: img_name_def sep_def)
  have "img_name i = img_name j"
    using a h[of i] h[of j] by (auto simp: os_path_join_def split: if_splits)
  then show ?thesis by (rule img_name_inj)
qed

lemma distinct_img_paths: "distinct (img_paths d i n)"
  unfolding img_paths_def
  by (simp add: distinct_map inj_on_def) (metis os_path_join_img_inj)

lemma img_path_fresh: "os_path_join d (img_name i) \<notin> set (img_paths d (Suc i) n)"
  using distinct_img_paths[of d i "Suc n"] by (simp add: img_paths_Suc)

subsection \<open>The loop\<close>

lemma image_save_cases:
  "(\<exists>e. fs_fault env (trace w) (SaveImage q) = Some e \<and> image_save env w q img = (Inl e, w))
   \<or> (fs_fault env (trace w) (SaveImage q) = None
        \<and> image_save env w q img = (Inr (), log_event (SaveImage q) (write_file q img w)))"
  by (cases "fs_fault env (trace w) (SaveImage q)") (simp_all add: image_save_def fs_call_def)

lemma generate_images_loop_trace:
  "generate_images_loop env m d i ps acc w = (r, w') \<Longrightarrow>
     \<exists>evs. trace w' = trace w @ evs
       \<and> rng_pos w' = rng_pos w \<and> environ w' = environ w
       \<and> set (stages evs) \<subseteq> {GenerateImages}
       \<and> prefix (pipe_calls evs) ps
       \<and> prefix (saved_images evs) (img_paths d i (length ps))
       \<and> written evs = saved_images evs
       \<and> tool_outputs evs = [] \<and> http_posts evs = 0
       \<and> (\<forall>x. x \<notin> set (img_paths d i (length ps)) \<longrightarrow> files w' x = files w x)
       \<and> (\<forall>paths. r = Inr paths \<longrightarrow>
             paths = acc @ img_paths d i (length ps)
             \<and> pipe_calls evs = ps \<and> saved_images evs = img_paths d i (length ps)
             \<and> stages evs = replicate (2 * length ps) GenerateImages)"
proof (induction ps arbitrary: i acc w)
  case Nil
  then show ?case by auto
next
  case (Cons p ps)
  let ?w1 = "log_event (PipeCall p) w"
  show ?case
  proof (cases "pipe_images env m p")
    case (Inl e)
    then have "r = Inl e \<and> w' = ?w1" using Cons.prems by (simp add: Let_def)
    then show ?thesis
      by (intro exI[of _ "[PipeCall p]"]) (simp add: log_event_def)
  next
    case (Inr imgs)
    show ?thesis
    proof (cases imgs)
      case Nil
      then have "r = Inl IndexError \<and> w' = ?w1" using Cons.prems Inr by (simp add: Let_def)
      then show ?thesis
        by (intro exI[of _ "[PipeCall p]"]) (simp add: log_event_def)
    next
      case (Cons img rest)
      let ?q = "os_path_join d (img_name i)"
      let ?w2 = "log_event (SaveImage ?q) (write_file ?q img ?w1)"
      from image_save_cases[of env ?w1 ?q img] show ?thesis
      proof
        assume "\<exists>e. fs_fault env (trace ?w1) (SaveImage ?q) = Some e
                  \<and> image_save env ?w1 ?q img = (Inl e, ?w1)"
        then obtain e where "image_save env ?w1 ?q img = (Inl e, ?w1)" by blast
        then have "r = Inl e \<and> w' = ?w1" using Cons.prems Inr Cons by (simp add: Let_def)
        then show ?thesis
          by (intro exI[of _ "[PipeCall p]"]) (simp add: log_event_def)
      next
        assume "fs_fault env (trace ?w1) (SaveImage ?q) = None
                  \<and> image_save env ?w1 ?q img = (Inr (), ?w2)"
        then have run: "generate_images_loop env m d (Suc i) ps (acc @ [?q]) ?w2 = (r, w')"
          using Cons.prems Inr Cons by (simp add: Let_def)
        from Cons.IH[OF run] obtain evs where
          e: "trace w' = trace ?w2 @ evs" "rng_pos w' = rng_pos ?w2" "environ w' = environ ?w2"
             "set (stages evs) \<subseteq> {GenerateImages}" "prefix (pipe_calls evs) ps"
             "prefix (saved_images evs) (img_paths d (Suc i) (length ps))"
             "written evs = saved_images evs" "tool_outputs evs = []" "http_posts evs = 0"
             "\<forall>x. x \<notin> set (img_paths d (Suc i) (length ps)) \<longrightarrow> files w' x = files ?w2 x"
             "\<forall>paths. r = Inr paths \<longrightarrow>
               paths = (acc @ [?q]) @ img_paths d (Suc i) (length ps)
               \<and> pipe_calls evs = ps \<and> saved_images evs = img_paths d (Suc i) (length ps)
               \<and> stages evs = replicate (2 * length ps) GenerateImages"
          by blast
        have t: "trace w' = trace w @ (PipeCall p # SaveImage ?q # evs)"
          using e(1) by (simp add: log_event_def write_file_def)
        have f: "\<forall>x. x \<notin> set (img_paths d i (length (p # ps))) \<longrightarrow> files w' x = files w x"
          using e(10) by (simp add: img_paths_Suc log_event_def write_file_def)
        show ?thesis
          apply (rule exI[of _ "PipeCall p # SaveImage ?q # evs"])
          using t f e(2-9) e(11)
          by (auto simp: log_event_def write_file_def img_paths_Suc)
      qed
    qed
  qed
qed

text \<open>When the loop returns, every call has given an image, and the file at each path holds it.\<close>

lemma generate_images_loop_files:
  "generate_images_loop env m d i ps acc w = (Inr paths, w') \<Longrightarrow>
     \<forall>k<length ps. first_image env m (ps ! k) \<noteq> None
        \<and> files w' (img_paths d i (length ps) ! k) = first_image env m (ps ! k)"
proof (induction ps arbitrary: i acc w)
  case Nil
  then show ?case by simp
next
  case (Cons p ps)
  let ?w1 = "log_event (PipeCall p) w"
  obtain imgs where pi: "pipe_images env m p = Inr imgs"
    using Cons.prems by (cases "pipe_images env m p") (simp_all add: Let_def)
  obtain img rest where im: "imgs = img # rest"
    using Cons.prems pi by (cases imgs) (simp_all add: Let_def)
  let ?q = "os_path_join d (img_name i)"
  let ?w2 = "log_event (SaveImage ?q) (write_file ?q img ?w1)"
  have fi: "first_image env m p = Some img" using pi im by (simp add: first_image_def)
  have sv: "image_save env ?w1 ?q img = (Inr (), ?w2)"
    using image_save_cases[of env ?w1 ?q img] Cons.prems pi im by (auto simp: Let_def)
  have run: "generate_images_loop env m d (Suc i) ps (acc @ [?q]) ?w2 = (Inr paths, w')"
    using Cons.prems pi im sv by (simp add: Let_def)
  note ih = Cons.IH[OF run]
  from generate_images_loop_trace[OF run]
  have fr: "\<forall>x. x \<notin> set (img_paths d (Suc i) (length ps)) \<longrightarrow> files w' x = files ?w2 x"
    by blast
  have "files ?w2 ?q = Some img" by (simp add: log_event_def write_file_def)
  then have q: "files w' ?q = Some img" using fr img_path_fresh[of d i "length ps"] by simp
  show ?case
  proof (intro allI impI)
    fix k
    assume k: "k < length (p # ps)"
    show "first_image env m ((p # ps) ! k) \<noteq> None
        \<and> files w' (img_paths d i (length (p # ps)) ! k) = first_image env m ((p # ps) ! k)"
    proof (cases k)
      case 0
      then show ?thesis using fi q by (simp add: img_paths_Suc)
    next
      case (Suc j)
      then have "j < length ps" using k by simp
      then show ?thesis using ih Suc by (simp add: img_paths_Suc)
    qed
  qed
qed

lemma generate_images_loop_needs:
  "is_ok (fst (generate_images_loop env m d i ps acc w)) \<Longrightarrow> list_all (pipe_ok env m) ps"
proof (induction ps arbitrary: i acc w)
  case Nil
  then show ?case by simp
next
  case (Cons p ps)
  let ?w1 = "log_event (PipeCall p) w"
  obtain imgs where pi: "pipe_images env m p = Inr imgs"
    using Cons.prems by (cases "pipe_images env m p") (simp_all add: Let_def is_ok_def)
  obtain img rest where im: "imgs = img # rest"
    using Cons.prems pi by (cases imgs) (simp_all add: Let_def is_ok_def)
  let ?q = "os_path_join d (img_name i)"
  let ?w2 = "log_event (SaveImage ?q) (write_file ?q img ?w1)"
  have ok: "pipe_ok env m p" using pi im by (simp add: pipe_ok_def)
  have sv: "image_save env ?w1 ?q img = (Inr (), ?w2)"
    using image_save_cases[of env ?w1 ?q img] Cons.prems pi im
    by (auto simp: Let_def is_ok_def)
  have "is_ok (fst (generate_images_loop env m d (Suc i) ps (acc @ [?q]) ?w2))"
    using Cons.prems pi im sv by (simp add: Let_def)
  then have "list_all (pipe_ok env m) ps" by (rule Cons.IH)
  then show ?case using ok by simp
qed

lemma generate_images_loop_returns:
  "list_all (pipe_ok env m) ps \<Longrightarrow> \<forall>h c. fs_fault env h c = None \<Longrightarrow>
     is_ok (fst (generate_images_loop env m d i ps acc w))"
proof (induction ps arbitrary: i acc w)
  case Nil
  then show ?case by (simp add: is_ok_def)
next
  case (Cons p ps)
  then show ?case
    by (auto simp: pipe_ok_def Let_def image_save_def fs_call_def split: sum.splits list.splits)
qed

subsection \<open>The function\<close>

lemma os_makedirs_cases:
  "(\<exists>e. os_makedirs env w d = (Inl e, w)
        \<and> (d = [] \<or> fs_fault env (trace w) (MakeDirs d) = Some e))
   \<or> (d \<noteq> [] \<and> fs_fault env (trace w) (MakeDirs d) = None
        \<and> os_makedirs env w d = (Inr (), log_event (MakeDirs d) w))"
  by (cases "fs_fault env (trace w) (MakeDirs d)") (simp_all add: os_makedirs_def fs_call_def)

lemma generate_images_trace:
  assumes "generate_images env w ps d m = (r, w')"
  shows "\<exists>evs. trace w' = trace w @ evs
       \<and> rng_pos w' = rng_pos w \<and> environ w' = environ w
       \<and> set (stages evs) \<subseteq> {GenerateImages} \<and> stages evs \<noteq> []
       \<and> prefix (pipe_calls evs) ps
       \<and> prefix (saved_images evs) (img_paths d 0 (length ps))
       \<and> written evs = saved_images evs
       \<and> tool_outputs evs = [] \<and> http_posts evs = 0
       \<and> (\<forall>x. x \<notin> set (img_paths d 0 (length ps)) \<longrightarrow> files w' x = files w x)
       \<and> (\<forall>paths. r = Inr paths \<longrightarrow>
             paths = img_paths d 0 (length ps)
             \<and> pipe_calls evs = ps \<and> saved_images evs = paths
             \<and> stages evs = replicate (1 + 2 * length ps) GenerateImages)"
proof (cases "from_pretrained env m")
  case (Inl e)
  then have "r = Inl e \<and> w' = log_event (LoadDiffusion m) w"
    using assms by (simp add: generate_images_def Let_def)
  then show ?thesis
    by (intro exI[of _ "[LoadDiffusion m]"]) (simp add: log_event_def)
next
  case (Inr u)
  let ?w1 = "log_event (LoadDiffusion m) w"
  let ?w2 = "log_event (MakeDirs d) ?w1"
  from os_makedirs_cases[of env ?w1 d] show ?thesis
  proof
    assume "\<exists>e. os_makedirs env ?w1 d = (Inl e, ?w1)
              \<and> (d = [] \<or> fs_fault env (trace ?w1) (MakeDirs d) = Some e)"
    then obtain e where "os_makedirs env ?w1 d = (Inl e, ?w1)" by blast
    then have "r = Inl e \<and> w' = ?w1" using assms Inr by (simp add: generate_images_def Let_def)
    then show ?thesis
      by (intro exI[of _ "[LoadDiffusion m]"]) (simp add: log_event_def)
  next
    assume "d \<noteq> [] \<and> fs_fault env (trace ?w1) (MakeDirs d) = None
              \<and> os_makedirs env ?w1 d = (Inr (), ?w2)"
    then have run: "generate_images_loop env m d 0 ps [] ?w2 = (r, w')"
      using assms Inr by (simp add: generate_images_def Let_def)
    from generate_images_loop_trace[OF run] obtain evs where
      e: "trace w' = trace ?w2 @ evs" "rng_pos w' = rng_pos ?w2" "environ w' = environ ?w2"
         "set (stages evs) \<subseteq> {GenerateImages}" "prefix (pipe_calls evs) ps"
         "prefix (saved_images evs) (img_paths d 0 (length ps))"
         "written evs = saved_images evs" "tool_outputs evs = []" "http_posts evs = 0"
         "\<forall>x. x \<notin> set (img_paths d 0 (length ps)) \<longrightarrow> files w' x = files ?w2 x"
         "\<forall>paths. r = Inr paths \<longrightarrow>
               paths = [] @ img_paths d 0 (length ps)
               \<and> pipe_calls evs = ps \<and> saved_images evs = img_paths d 0 (length ps)
               \<and> stages evs = replicate (2 * length ps) GenerateImages"
      by blast
    have t: "trace w' = trace w @ (LoadDiffusion m # MakeDirs d # evs)"
      using e(1) by (simp add: log_event_def)
    show ?thesis
      apply (rule exI[of _ "LoadDiffusion m # MakeDirs d # evs"])
      using t e(2-11)
      by (auto simp: log_event_def)
  qed
qed

lemma generate_images_files:
  assumes "generate_images env w ps d m = (Inr paths, w')"
  shows "\<forall>k<length ps. first_image env m (ps ! k) \<noteq> None
           \<and> files w' (img_paths d 0 (length ps) ! k) = first_image env m (ps ! k)"
proof -
  let ?w1 = "log_event (LoadDiffusion m) w"
  obtain u where lp: "from_pretrained env m = Inr u"
    using assms by (cases "from_pretrained env m") (simp_all add: generate_images_def Let_def)
  obtain w2 where "os_makedirs env ?w1 d = (Inr (), w2)"
    using assms lp os_makedirs_cases[of env ?w1 d]
    by (auto simp: generate_images_def Let_def)
  then have "generate_images_loop env m d 0 ps [] w2 = (Inr paths, w')"
    using assms lp by (simp add: generate_images_def Let_def)
  then show ?thesis by (rule generate_images_loop_files)
qed

lemma generate_images_needs:
  assumes "is_ok (fst (generate_images env w ps d m))"
  shows "is_ok (from_pretrained env m) \<and> d \<noteq> [] \<and> list_all (pipe_ok env m) ps"
proof -
  let ?w1 = "log_event (LoadDiffusion m) w"
  obtain u where lp: "from_pretrained env m = Inr u"
    using assms
    by (cases "from_pretrained env m") (simp_all add: generate_images_def Let_def is_ok_def)
  have mk: "d \<noteq> [] \<and> os_makedirs env ?w1 d = (Inr (), log_event (MakeDirs d) ?w1)"
    using assms lp os_makedirs_cases[of env ?w1 d]
    by (auto simp: generate_images_def Let_def is_ok_def)
  then have "is_ok (fst (generate_images_loop env m d 0 ps [] (log_event (MakeDirs d) ?w1)))"
    using assms lp by (simp add: generate_images_def Let_def)
  then have "list_all (pipe_ok env m) ps" by (rule generate_images_loop_needs)
  then show ?thesis using lp mk by (simp add: is_ok_def)
qed

lemma generate_images_returns:
  assumes "is_ok (from_pretrained env m)" and "d \<noteq> []" and "list_all (pipe_ok env m) ps"
    and "\<forall>h c. fs_fault env h c = None"
  shows "is_ok (fst (generate_images env w ps d m))"
proof -
  obtain u where lp: "from_pretrained env m = Inr u"
    using assms(1) by (cases "from_pretrained env m") (simp_all add: is_ok_def)
  show ?thesis
    using lp assms(2,4) generate_images_loop_returns[OF assms(3) assms(4)]
    by (simp add: generate_images_def Let_def os_makedirs_def fs_call_def)
qed

text \<open>
  Claim C6. When \<open>generate_images\<close> returns, the model has loaded, the output directory is
  not the empty path and every prompt's call has returned an image; and it does return when
  these hold and no call into the file system raises. When it returns, the list of paths is
  as long as the list of prompts, its \<open>i\<close>-th element (from 0) is the output directory
  joined with \<^verbatim>\<open>img_{i+1}.png\<close>, the diffusion model has been called once for each
  prompt, in the order of the prompts, and the images saved are the returned paths, in that
  order. The paths are pairwise distinct, the file at the \<open>i\<close>-th path holds the first
  image the model returned for the \<open>i\<close>-th prompt, and no other file has changed: one image
  file for each prompt.
\<close>

theorem generate_images_one_per_prompt:
  "(is_ok (fst (generate_images env w ps d m))
      \<longrightarrow> is_ok (from_pretrained env m) \<and> d \<noteq> [] \<and> list_all (pipe_ok env m) ps)
   \<and> (is_ok (from_pretrained env m) \<and> d \<noteq> [] \<and> list_all (pipe_ok env m) ps
        \<and> (\<forall>h c. fs_fault env h c = None)
      \<longrightarrow> is_ok (fst (generate_images env w ps d m)))
   \<and> (\<forall>paths. fst (generate_images env w ps d m) = Inr paths \<longrightarrow>
        length paths = length ps
        \<and> (\<forall>i<length ps. paths ! i = os_path_join d (''img_'' @ str_nat (i + 1) @ ''.png''))
        \<and> pipe_calls (new_events w (snd (generate_images env w ps d m))) = ps
        \<and> saved_images (new_events w (snd (generate_images env w ps d m))) = paths
        \<and> distinct paths
        \<and> (\<forall>i<length ps. first_image env m (ps ! i) \<noteq> None
              \<and> files (snd (generate_images env w ps d m)) (paths ! i)
                  = first_image env m (ps ! i))
        \<and> (\<forall>x. x \<notin> set paths \<longrightarrow> files (snd (generate_images env w ps d m)) x = files w x))"
proof (intro conjI allI impI)
  assume "is_ok (fst (generate_images env w ps d m))"
  note n = generate_images_needs[OF this]
  show "is_ok (from_pretrained env m)" using n by simp
  show "d \<noteq> []" using n by simp
  show "list_all (pipe_ok env m) ps" using n by simp
next
  assume "is_ok (from_pretrained env m) \<and> d \<noteq> [] \<and> list_all (pipe_ok env m) ps
        \<and> (\<forall>h c. fs_fault env h c = None)"
  then show "is_ok (fst (generate_images env w ps d m))"
    using generate_images_returns by blast
next
  fix paths
  assume ok: "fst (generate_images env w ps d m) = Inr paths"
  obtain w' where run: "generate_images env w ps d m = (Inr paths, w')"
    using ok by (cases "generate_images env w ps d m") simp
  from generate_images_trace[OF run] obtain evs where
    e: "trace w' = trace w @ evs" "paths = img_paths d 0 (length ps)"
       "pipe_calls evs = ps" "saved_images evs = paths"
       "\<forall>x. x \<notin> set (img_paths d 0 (length ps)) \<longrightarrow> files w' x = files w x"
    by blast
  have n: "new_events w (snd (generate_images env w ps d m)) = evs"
    using e(1) run by simp
  note f = generate_images_files[OF run]
  show "length paths = length ps" using e(2) by simp
  show "pipe_calls (new_events w (snd (generate_images env w ps d m))) = ps"
    using n e(3) by simp
  show "saved_images (new_events w (snd (generate_images env w ps d m))) = paths"
    using n e(4) by simp
  show "distinct paths" using e(2) distinct_img_paths by simp
  {
    fix i
    assume i: "i < length ps"
    show "paths ! i = os_path_join d (''img_'' @ str_nat (i + 1) @ ''.png'')"
      using e(2) i img_paths_nth by simp
    show "first_image env m (ps ! i) \<noteq> None" using f i by simp
    show "files (snd (generate_images env w ps d m)) (paths ! i) = first_image env m (ps ! i)"
      using f i e(2) run by simp
  }
  fix x
  assume "x \<notin> set paths"
  then show "files (snd (generate_images env w ps d m)) x = files w x"
    using e(5) e(2) run by simp
qed

theorem generate_images_one_per_prompt_witness:
  "is_ok (from_pretrained (canned_env 200) default_model_id) \<and> ''out'' \<noteq> []
   \<and> list_all (pipe_ok (canned_env 200) default_model_id) [ustr_of ''a cell'', ustr_of ''a leaf'']
   \<and> (\<forall>h c. fs_fault (canned_env 200) h c = None)
   \<and> fst (generate_images (canned_env 200) empty_world [ustr_of ''a cell'', ustr_of ''a leaf'']
            ''out'' default_model_id) = Inr [''out/img_1.png'', ''out/img_2.png'']
   \<and> pipe_calls (new_events empty_world (snd (generate_images (canned_env 200) empty_world
         [ustr_of ''a cell'', ustr_of ''a leaf''] ''out'' default_model_id)))
       = [ustr_of ''a cell'', ustr_of ''a leaf'']
   \<and> files (snd (generate_images (canned_env 200) empty_world
         [ustr_of ''a cell'', ustr_of ''a leaf''] ''out'' default_model_id)) ''out/img_1.png''
       = Some ''PNG 545''
   \<and> files (snd (generate_images (canned_env 200) empty_world
         [ustr_of ''a cell'', ustr_of ''a leaf''] ''out'' default_model_id)) ''out/img_2.png''
       = Some ''PNG 537''
   \<and> files (snd (generate_images (canned_env 200) empty_world
         [ustr_of ''a cell'', ustr_of ''a leaf''] ''out'' default_model_id)) ''out/audio.mp3''
       = None"
proof -
  let ?ps = "[ustr_of ''a cell'', ustr_of ''a leaf'']"
  let ?G = "generate_images (canned_env 200) empty_world ?ps ''out'' default_model_id"
  have a: "is_ok (from_pretrained (canned_env 200) default_model_id)"
    by (simp add: canned_env_def is_ok_def)
  have b: "list_all (pipe_ok (canned_env 200) default_model_id) ?ps"
    by (simp add: canned_env_def pipe_ok_def)
  have c: "\<forall>h c. fs_fault (canned_env 200) h c = None"
    by (simp add: canned_env_def)
  have d: "''out'' \<noteq> []" by simp
  note t = generate_images_one_per_prompt[of "canned_env 200" empty_world ?ps "''out''"
             default_model_id]
  have ok: "is_ok (fst ?G)" using t a b c d by blast
  then obtain paths where p: "fst ?G = Inr paths" by (cases "fst ?G") (simp_all add: is_ok_def)
  note u = t[THEN conjunct2, THEN conjunct2, THEN spec, THEN mp, OF p]
  have l: "length paths = 2" using u by simp
  have n: "\<forall>i<length ?ps. paths ! i = os_path_join ''out'' (''img_'' @ str_nat (i + 1) @ ''.png'')"
    using u by (elim conjE)
  have p0: "paths ! 0 = ''out/img_1.png''"
    using n[THEN spec, of 0] by (simp add: os_path_join_def sep_def str_nat.simps digit_char_def)
  have p1: "paths ! 1 = ''out/img_2.png''"
    using n[THEN spec, of 1] by (simp add: os_path_join_def sep_def str_nat.simps digit_char_def)
  have pe: "paths = [''out/img_1.png'', ''out/img_2.png'']"
    using l p0 p1 by (auto simp: list_eq_iff_nth_eq less_Suc_eq numeral_2_eq_2)
  have f0: "first_image (canned_env 200) default_model_id (ustr_of ''a cell'') = Some ''PNG 545''"
    by (simp add: first_image_def canned_env_def ustr_of_def str_nat.simps digit_char_def)
  have f1: "first_image (canned_env 200) default_model_id (ustr_of ''a leaf'') = Some ''PNG 537''"
    by (simp add: first_image_def canned_env_def ustr_of_def str_nat.simps digit_char_def)
  have fl: "\<forall>i<length ?ps. first_image (canned_env 200) default_model_id (?ps ! i) \<noteq> None
              \<and> files (snd ?G) (paths ! i) = first_image (canned_env 200) default_model_id (?ps ! i)"
    using u by (elim conjE)
  have g0: "files (snd ?G) ''out/img_1.png'' = Some ''PNG 545''"
    using fl[THEN spec, of 0] f0 p0 by simp
  have g1: "files (snd ?G) ''out/img_2.png'' = Some ''PNG 537''"
    using fl[THEN spec, of 1] f1 p1 by simp
  have fr: "\<forall>x. x \<notin> set paths \<longrightarrow> files (snd ?G) x = files empty_world x"
    using u by (elim conjE)
  have "''out/audio.mp3'' \<notin> set paths" using pe by simp
  then have g2: "files (snd ?G) ''out/audio.mp3'' = files empty_world ''out/audio.mp3''"
    using fr by blast
  have g3: "files empty_world ''out/audio.mp3'' = None" by (simp add: empty_world_def)
  have q: "pipe_calls (new_events empty_world (snd ?G)) = ?ps" using u by (elim conjE)
  have r: "fst ?G = Inr [''out/img_1.png'', ''out/img_2.png'']" using p pe by simp
  show ?thesis
    using a d b c r q g0 g1 g2 g3 by (intro conjI) simp_all
qed

section \<open>The pipeline\<close>

subsection \<open>Identifiers and paths\<close>

lemma hex_digit_not_sep: "hex_digit n \<noteq> sep"
proof -
  have "hex_digit n \<in> set ''0123456789abcdef''"
    unfolding hex_digit_def by (rule nth_mem) simp
  moreover have "sep \<notin> set ''0123456789abcdef''"
    by (simp add: sep_def)
  ultimately show ?thesis by metis
qed

lemma sep_notin_hex32: "sep \<notin> set (hex32 u)"
proof
  assume "sep \<in> set (hex32 u)"
  then obtain n where "sep = hex_digit n" unfolding hex32_def by auto
  then show False using hex_digit_not_sep[of n] by simp
qed

lemma length_hex32: "length (hex32 u) = 32"
  by (simp add: hex32_def)

lemma length_str_uuid: "length (str_uuid u) = 36"
  by (simp add: str_uuid_def Let_def length_hex32)

lemma set_str_uuid: "c \<in> set (str_uuid u) \<Longrightarrow> c = CHR ''-'' \<or> c \<in> set (hex32 u)"
proof -
  define h where "h = hex32 u"
  assume c: "c \<in> set (str_uuid u)"
  have t: "\<And>n xs. set (take n xs) \<subseteq> set (xs :: string)" by (rule set_take_subset)
  have d: "\<And>n xs. set (drop n xs) \<subseteq> set (xs :: string)" by (rule set_drop_subset)
  have 1: "set (take 8 h) \<subseteq> set h" by (rule t)
  have 2: "set (take 4 (drop 8 h)) \<subseteq> set h" using t[of 4 "drop 8 h"] d[of 8 h] by blast
  have 3: "set (take 4 (drop 12 h)) \<subseteq> set h" using t[of 4 "drop 12 h"] d[of 12 h] by blast
  have 4: "set (take 4 (drop 16 h)) \<subseteq> set h" using t[of 4 "drop 16 h"] d[of 16 h] by blast
  have 5: "set (drop 20 h) \<subseteq> set h" by (rule d)
  have "set (str_uuid u) = set (take 8 h) \<union> set (take 4 (drop 8 h)) \<union> set (take 4 (drop 12 h))
          \<union> set (take 4 (drop 16 h)) \<union> set (drop 20 h) \<union> {CHR ''-''}"
    unfolding str_uuid_def Let_def h_def[symmetric] by auto
  then have "c = CHR ''-'' \<or> c \<in> set h" using c 1 2 3 4 5 by blast
  then show ?thesis by (simp only: h_def)
qed

lemma sep_notin_str_uuid: "sep \<notin> set (str_uuid u)"
proof
  assume "sep \<in> set (str_uuid u)"
  then have "sep = CHR ''-'' \<or> sep \<in> set (hex32 u)" by (rule set_str_uuid)
  moreover have "sep \<noteq> CHR ''-''" by (simp add: sep_def)
  ultimately show False using sep_notin_hex32[of u] by metis
qed

lemma str_uuid_ends:
  "str_uuid u \<noteq> [] \<and> hd (str_uuid u) \<noteq> sep \<and> last (str_uuid u) \<noteq> sep"
proof -
  have ne: "str_uuid u \<noteq> []" using length_str_uuid[of u] by auto
  then have "hd (str_uuid u) \<in> set (str_uuid u)" "last (str_uuid u) \<in> set (str_uuid u)"
    by simp_all
  then show ?thesis using ne sep_notin_str_uuid[of u] by metis
qed

lemma os_path_join_rel:
  "a \<noteq> [] \<Longrightarrow> last a \<noteq> sep \<Longrightarrow> sep \<notin> set b \<Longrightarrow> os_path_join a b = a @ sep # b"
  by (cases b) (auto simp: os_path_join_def)


lemma os_path_join_ends:
  "b \<noteq> [] \<Longrightarrow> hd b \<noteq> sep \<Longrightarrow> last b \<noteq> sep \<Longrightarrow>
     os_path_join a b \<noteq> [] \<and> last (os_path_join a b) \<noteq> sep"
  by (auto simp: os_path_join_def)

lemma digit_char_in: "digit_char n \<in> set ''0123456789''"
  unfolding digit_char_def by (rule nth_mem) simp

lemma set_str_nat: "c \<in> set (str_nat n) \<Longrightarrow> c \<in> set ''0123456789''"
proof (induction n rule: str_nat.induct)
  case (1 n)
  show ?case
  proof (cases "n < 10")
    case True
    then have "c = digit_char n" using "1.prems" by (simp add: str_nat.simps[of n])
    then show ?thesis using digit_char_in by simp
  next
    case False
    then have "c \<in> set (str_nat (n div 10)) \<or> c = digit_char (n mod 10)"
      using "1.prems" by (auto simp: str_nat.simps[of n])
    then show ?thesis using "1.IH"[OF False] digit_char_in[of "n mod 10"] by blast
  qed
qed

lemma img_name_plain: "img_name k \<noteq> [] \<and> sep \<notin> set (img_name k)"
  using set_str_nat[of sep "k + 1"] by (auto simp: img_name_def sep_def)

lemma job_dir_ends:
  "os_path_join out_dir (new_job_id env w) \<noteq> []
   \<and> last (os_path_join out_dir (new_job_id env w)) \<noteq> sep"
  using str_uuid_ends os_path_join_ends unfolding new_job_id_def by blast


subsection \<open>The intermediate video and the other paths of a job\<close>




lemma str_replace_skip:
  "CHR ''.'' \<notin> set s \<Longrightarrow> str_replace ''.mp4'' new (s @ t) = s @ str_replace ''.mp4'' new t"
proof (induction s)
  case Nil
  then show ?case by simp
next
  case (Cons c s)
  then have c: "c \<noteq> CHR ''.''" by auto
  have "str_replace ''.mp4'' new ((c # s) @ t) = c # str_replace ''.mp4'' new (s @ t)"
    using c by (subst str_replace.simps) simp
  then show ?case using Cons by simp
qed

lemma str_replace_video: "str_replace ''.mp4'' ''_tmp.mp4'' ''/video.mp4'' = ''/video_tmp.mp4''"
  by (simp add: str_replace.simps)


lemma str_replace_Nil: "old \<noteq> [] \<Longrightarrow> str_replace old new [] = []"
  by (simp add: str_replace.simps)

lemma prefix_before_sep:
  assumes "c \<notin> set old"
  shows "prefix old (x @ c # y) = prefix old x"
proof
  assume "prefix old (x @ c # y)"
  then have "prefix old x \<or> (\<exists>us. old = x @ us \<and> prefix us (c # y))"
    by (simp add: prefix_append)
  then show "prefix old x"
  proof
    assume "\<exists>us. old = x @ us \<and> prefix us (c # y)"
    then obtain us where u: "old = x @ us" "prefix us (c # y)" by blast
    have "us = []" using u assms by (cases us) auto
    then show ?thesis using u(1) by simp
  qed simp
next
  assume "prefix old x"
  then show "prefix old (x @ c # y)" by (rule prefix_prefix)
qed

text \<open>A character that does not occur in \<open>old\<close> splits the replacement in two.\<close>

lemma str_replace_sep:
  assumes "old \<noteq> []" and "c \<notin> set old"
  shows "str_replace old new (x @ c # y) = str_replace old new x @ c # str_replace old new y"
proof (induction x rule: length_induct)
  case (1 x)
  show ?case
  proof (cases x)
    case Nil
    have "\<not> prefix old (c # y)" using assms by (cases old) auto
    then have "str_replace old new (c # y) = c # str_replace old new y"
      using assms(1) by (simp add: str_replace.simps[of old new "c # y"])
    then show ?thesis using Nil assms(1) by (simp add: str_replace_Nil)
  next
    case (Cons a xs)
    note pf = prefix_before_sep[OF assms(2), of x y]
    show ?thesis
    proof (cases "prefix old x")
      case True
      then obtain z where z: "x = old @ z" by (auto elim: prefixE)
      have lz: "length z < length x" using z assms(1) by simp
      have xn: "x \<noteq> []" using Cons by simp
      have "str_replace old new (x @ c # y)
              = new @ str_replace old new (drop (length old) (x @ c # y))"
        using pf True assms(1) by (subst str_replace.simps) simp
      moreover have "drop (length old) (x @ c # y) = z @ c # y" using z by simp
      moreover have "str_replace old new x = new @ str_replace old new (drop (length old) x)"
        using True xn assms(1) by (subst str_replace.simps) simp
      moreover have "drop (length old) x = z" using z by simp
      moreover have "str_replace old new (z @ c # y)
              = str_replace old new z @ c # str_replace old new y"
        using 1 lz by blast
      ultimately show ?thesis by simp
    next
      case False
      have "str_replace old new (x @ c # y) = a # str_replace old new (xs @ c # y)"
        using pf False Cons assms(1) by (subst str_replace.simps) simp
      moreover have "str_replace old new x = a # str_replace old new xs"
        using False Cons assms(1) by (subst str_replace.simps) simp
      moreover have "str_replace old new (xs @ c # y)
              = str_replace old new xs @ c # str_replace old new y"
        using 1 Cons by simp
      ultimately show ?thesis by simp
    qed
  qed
qed

lemma str_replace_video_name:
  "str_replace ''.mp4'' ''_tmp.mp4'' ''video.mp4'' = ''video_tmp.mp4''"
  by (simp add: str_replace.simps)

text \<open>
  The paths of a job in a directory \<open>jd\<close> that is not empty and does not end in a
  separator, and that they differ from one another.
\<close>

lemma job_paths:
  assumes "jd \<noteq> []" and "last jd \<noteq> sep"
  shows "os_path_join jd ''audio.mp3'' = jd @ ''/audio.mp3''"
    and "os_path_join jd ''video.mp4'' = jd @ ''/video.mp4''"
    and "os_path_join jd (img_name k) = jd @ ''/'' @ img_name k"
    and "str_replace ''.mp4'' ''_tmp.mp4'' (os_path_join jd ''video.mp4'')
           = str_replace ''.mp4'' ''_tmp.mp4'' jd @ ''/video_tmp.mp4''"
proof -
  show a: "os_path_join jd ''audio.mp3'' = jd @ ''/audio.mp3''"
    using assms os_path_join_rel[of jd "''audio.mp3''"] by (simp add: sep_def)
  show v: "os_path_join jd ''video.mp4'' = jd @ ''/video.mp4''"
    using assms os_path_join_rel[of jd "''video.mp4''"] by (simp add: sep_def)
  show "os_path_join jd (img_name k) = jd @ ''/'' @ img_name k"
    using assms os_path_join_rel[of jd "img_name k"] img_name_plain[of k] by (simp add: sep_def)
  have "str_replace ''.mp4'' ''_tmp.mp4'' (jd @ CHR ''/'' # ''video.mp4'')
          = str_replace ''.mp4'' ''_tmp.mp4'' jd @ CHR ''/''
              # str_replace ''.mp4'' ''_tmp.mp4'' ''video.mp4''"
    by (rule str_replace_sep) simp_all
  then show "str_replace ''.mp4'' ''_tmp.mp4'' (os_path_join jd ''video.mp4'')
           = str_replace ''.mp4'' ''_tmp.mp4'' jd @ ''/video_tmp.mp4''"
    using v by (simp add: str_replace_video_name)
qed

lemma last_img_name: "last (img_name k) = CHR ''g''"
  by (simp add: img_name_def)

lemma job_paths_apart:
  assumes "jd \<noteq> []" and "last jd \<noteq> sep"
  shows "os_path_join jd ''audio.mp3'' \<noteq> os_path_join jd ''video.mp4''"
    and "os_path_join jd ''audio.mp3''
           \<noteq> str_replace ''.mp4'' ''_tmp.mp4'' (os_path_join jd ''video.mp4'')"
    and "os_path_join jd ''video.mp4''
           \<noteq> str_replace ''.mp4'' ''_tmp.mp4'' (os_path_join jd ''video.mp4'')"
    and "os_path_join jd (img_name k) \<noteq> os_path_join jd ''audio.mp3''"
    and "os_path_join jd (img_name k) \<noteq> os_path_join jd ''video.mp4''"
    and "os_path_join jd (img_name k)
           \<noteq> str_replace ''.mp4'' ''_tmp.mp4'' (os_path_join jd ''video.mp4'')"
proof -
  note p = job_paths[OF assms]
  let ?r = "str_replace ''.mp4'' ''_tmp.mp4'' jd"
  show "os_path_join jd ''audio.mp3'' \<noteq> os_path_join jd ''video.mp4''"
    by (simp add: p)
  show "os_path_join jd ''audio.mp3''
           \<noteq> str_replace ''.mp4'' ''_tmp.mp4'' (os_path_join jd ''video.mp4'')"
  proof
    assume "os_path_join jd ''audio.mp3''
              = str_replace ''.mp4'' ''_tmp.mp4'' (os_path_join jd ''video.mp4'')"
    then have "jd @ ''/audio.mp3'' = ?r @ ''/video_tmp.mp4''"
      by (simp only: p(1) p(4))
    then have "last (jd @ ''/audio.mp3'') = last (?r @ ''/video_tmp.mp4'')"
      by (rule arg_cong)
    then show False by simp
  qed
  show "os_path_join jd ''video.mp4''
           \<noteq> str_replace ''.mp4'' ''_tmp.mp4'' (os_path_join jd ''video.mp4'')"
  proof
    assume "os_path_join jd ''video.mp4''
              = str_replace ''.mp4'' ''_tmp.mp4'' (os_path_join jd ''video.mp4'')"
    then have "os_path_join jd ''video.mp4'' = ?r @ ''/video_tmp.mp4''"
      by (simp only: p(4))
    then have "jd @ ''/video.mp4'' = ?r @ ''/video_tmp.mp4''"
      by (simp only: p(2))
    then have "rev (jd @ ''/video.mp4'') ! 4 = rev (?r @ ''/video_tmp.mp4'') ! 4"
      by (rule arg_cong)
    then show False by simp
  qed
  show "os_path_join jd (img_name k) \<noteq> os_path_join jd ''audio.mp3''"
    unfolding p by (simp add: img_name_def)
  show "os_path_join jd (img_name k) \<noteq> os_path_join jd ''video.mp4''"
    unfolding p by (simp add: img_name_def)
  show "os_path_join jd (img_name k)
           \<noteq> str_replace ''.mp4'' ''_tmp.mp4'' (os_path_join jd ''video.mp4'')"
  proof
    assume "os_path_join jd (img_name k)
              = str_replace ''.mp4'' ''_tmp.mp4'' (os_path_join jd ''video.mp4'')"
    then have "jd @ ''/'' @ img_name k = ?r @ ''/video_tmp.mp4''"
      by (simp only: p(3) p(4))
    then have "last (jd @ ''/'' @ img_name k) = last (?r @ ''/video_tmp.mp4'')"
      by (rule arg_cong)
    then show False using img_name_plain[of k] by (simp add: last_img_name)
  qed
qed

subsection \<open>Splitting and stripping\<close>

lemma str_split_nonempty: "str_split c s \<noteq> []"
  by (induction s) (auto split: list.splits)

lemma str_join_Cons: "str_join c ((a # x) # xs) = a # str_join c (x # xs)"
  by (cases xs) simp_all

lemma str_split_join: "str_join c (str_split c s) = s"
proof (induction s)
  case Nil
  show ?case by simp
next
  case (Cons a s)
  obtain x xs where sp: "str_split c s = x # xs"
    using str_split_nonempty[of c s] by (cases "str_split c s") auto
  show ?case
  proof (cases "a = c")
    case True
    then have "str_join c (str_split c (a # s)) = c # str_join c (x # xs)"
      using sp by simp
    then show ?thesis using Cons sp True by simp
  next
    case False
    then have "str_join c (str_split c (a # s)) = a # str_join c (x # xs)"
      using sp by (simp add: str_join_Cons)
    then show ?thesis using Cons sp by simp
  qed
qed

lemma str_split_no_sep: "list_all (\<lambda>seg. c \<notin> set seg) (str_split c s)"
proof (induction s)
  case Nil
  show ?case by simp
next
  case (Cons a s)
  obtain x xs where sp: "str_split c s = x # xs"
    using str_split_nonempty[of c s] by (cases "str_split c s") auto
  show ?case using Cons sp by auto
qed

lemma length_str_split: "length (str_split c s) = Suc (length (filter (\<lambda>a. a = c) s))"
proof (induction s)
  case Nil
  show ?case by simp
next
  case (Cons a s)
  obtain x xs where sp: "str_split c s = x # xs"
    using str_split_nonempty[of c s] by (cases "str_split c s") auto
  show ?case using Cons sp by auto
qed

lemma str_strip_parts:
  "\<exists>a b. s = a @ str_strip s @ b \<and> list_all isspace a \<and> list_all isspace b"
proof -
  let ?d = "dropWhile isspace s"
  let ?b = "rev (takeWhile isspace (rev ?d))"
  have "?d = rev (takeWhile isspace (rev ?d) @ dropWhile isspace (rev ?d))" by simp
  also have "\<dots> = rev (dropWhile isspace (rev ?d)) @ ?b" by (rule rev_append)
  finally have d: "?d = str_strip s @ ?b" by (simp only: str_strip_def)
  have "s = takeWhile isspace s @ ?d" by simp
  then have s: "s = takeWhile isspace s @ str_strip s @ ?b" using d by simp
  have a: "list_all isspace (takeWhile isspace s)"
    by (simp add: list_all_iff) (metis set_takeWhileD)
  have b: "list_all isspace ?b"
    by (simp add: list_all_iff) (metis set_takeWhileD)
  show ?thesis using s a b by blast
qed

lemma last_dropWhile: "dropWhile P xs \<noteq> [] \<Longrightarrow> last (dropWhile P xs) = last xs"
proof -
  assume n: "dropWhile P xs \<noteq> []"
  have "last xs = last (takeWhile P xs @ dropWhile P xs)" by simp
  also have "\<dots> = last (dropWhile P xs)" using n by (simp only: last_append if_False)
  finally show ?thesis by simp
qed

lemma str_strip_ends:
  assumes "str_strip s \<noteq> []"
  shows "\<not> isspace (hd (str_strip s)) \<and> \<not> isspace (last (str_strip s))"
proof -
  let ?d = "dropWhile isspace s"
  let ?e = "dropWhile isspace (rev ?d)"
  have e: "?e \<noteq> []" using assms by (simp add: str_strip_def)
  have d: "?d \<noteq> []"
  proof
    assume a: "?d = []"
    have "?e = []" unfolding a by simp
    then show False using e by simp
  qed
  have "last (str_strip s) = hd ?e" using e by (simp add: str_strip_def last_rev)
  then have l: "\<not> isspace (last (str_strip s))" using hd_dropWhile[OF e] by simp
  have "hd (str_strip s) = last ?e" using e by (simp add: str_strip_def hd_rev)
  also have "\<dots> = last (rev ?d)" using e by (rule last_dropWhile)
  also have "\<dots> = hd ?d" using d by (simp add: last_rev)
  finally have "hd (str_strip s) = hd ?d" .
  then have h: "\<not> isspace (hd (str_strip s))" using hd_dropWhile[OF d] by simp
  show ?thesis using h l by simp
qed

lemma isspace_table:
  "isspace c = (c \<in> {9, 10, 11, 12, 13, 28, 29, 30, 31, 32, 133, 160, 5760, 8232, 8233, 8239,
                       8287, 12288} \<or> (8192 \<le> c \<and> c \<le> 8202))"
  unfolding isspace_def by simp arith

lemma period_char: "period = of_char CHR ''.''"
  by (simp add: period_def)

subsection \<open>The prompts\<close>

lemma extract_prompts_spec: "extract_prompts template enhanced = spec_prompts template enhanced"
  by (simp add: extract_prompts_def spec_prompts_def take_map filter_map o_def)

lemma length_extract_prompts: "length (extract_prompts template enhanced) \<le> 3"
  by (simp add: extract_prompts_def)


subsection \<open>What each stage adds to the trace and to the files\<close>

lemma enhance_text_trace:
  assumes "enhance_text env w t m = (r, w')"
  shows "trace w' = trace w @ [Generate m t] \<and> rng_pos w' = rng_pos w
       \<and> environ w' = environ w \<and> files w' = files w \<and> r = text_generation env m t"
  using assms by (auto simp: enhance_text_def log_event_def)

lemma resolve_api_key_environ:
  "environ w' = environ w \<Longrightarrow> resolve_api_key w' key = resolve_api_key w key"
  by (cases key) (simp_all add: resolve_api_key_def)

lemma open_wb_cases:
  "(\<exists>e. open_wb env w p = (Inl e, w))
   \<or> open_wb env w p = (Inr (), log_event (OpenFile p) (write_file p [] w))"
  by (cases "fs_fault env (trace w) (OpenFile p)") (simp_all add: open_wb_def fs_call_def)

lemma file_write_cases:
  "(\<exists>e. file_write env w p bytes = (Inl e, w))
   \<or> file_write env w p bytes = (Inr (), log_event (WriteFile p) (write_file p bytes w))"
  by (cases "fs_fault env (trace w) (WriteFile p)") (simp_all add: file_write_def fs_call_def)

lemma generate_audio_trace:
  assumes "generate_audio env w t v out s key = (r, w')"
  shows "\<exists>evs. trace w' = trace w @ evs
       \<and> rng_pos w' = rng_pos w \<and> environ w' = environ w
       \<and> set (stages evs) \<subseteq> {GenerateAudio}
       \<and> set (written evs) \<subseteq> {out}
       \<and> pipe_calls evs = [] \<and> saved_images evs = [] \<and> tool_outputs evs = []
       \<and> (\<forall>x. x \<noteq> out \<longrightarrow> files w' x = files w x)
       \<and> (\<forall>x. r = Inr x \<longrightarrow>
             x = out \<and> stages evs = [GenerateAudio, GenerateAudio, GenerateAudio]
             \<and> written evs = [out, out]
             \<and> (\<exists>k resp. resolve_api_key w key = Some k \<and> k \<noteq> []
                   \<and> requests_post env (tts_url v) (tts_headers k) (tts_payload t) = Inr resp
                   \<and> status_code resp = 200 \<and> files w' out = Some (content resp)))"
proof (cases "resolve_api_key w key")
  case None
  then have "r = Inl (RuntimeError no_key_message) \<and> w' = w"
    using assms by (simp add: generate_audio_def)
  then show ?thesis by (intro exI[of _ "[]"]) simp
next
  case (Some k)
  show ?thesis
  proof (cases "k = []")
    case True
    then have "r = Inl (RuntimeError no_key_message) \<and> w' = w"
      using assms Some by (simp add: generate_audio_def)
    then show ?thesis by (intro exI[of _ "[]"]) simp
  next
    case False
    let ?post = "HttpPost (tts_url v) (tts_headers k) (tts_payload t)"
    let ?w1 = "log_event ?post w"
    show ?thesis
    proof (cases "requests_post env (tts_url v) (tts_headers k) (tts_payload t)")
      case (Inl e)
      then have "r = Inl e \<and> w' = ?w1"
        using assms Some False by (simp add: generate_audio_def Let_def)
      then show ?thesis by (intro exI[of _ "[?post]"]) (simp add: log_event_def)
    next
      case (Inr resp)
      show ?thesis
      proof (cases "status_code resp = 200")
        case ne: False
        then have "r = Inl (tts_error resp) \<and> w' = ?w1"
          using assms Some False Inr by (simp add: generate_audio_def Let_def)
        then show ?thesis by (intro exI[of _ "[?post]"]) (simp add: log_event_def)
      next
        case True
        let ?w2 = "log_event (OpenFile out) (write_file out [] ?w1)"
        let ?w3 = "log_event (WriteFile out) (write_file out (content resp) ?w2)"
        have unfold1: "generate_audio env w t v out s key =
            (case open_wb env ?w1 out of
               (Inl e, w2) \<Rightarrow> (Inl e, w2)
             | (Inr _, w2) \<Rightarrow>
                 (case file_write env w2 out (content resp) of
                    (Inl e, w3) \<Rightarrow> (Inl e, w3)
                  | (Inr _, w3) \<Rightarrow> (Inr out, w3)))"
          using Some False Inr True by (simp add: generate_audio_def Let_def)
        from open_wb_cases[of env ?w1 out] show ?thesis
        proof
          assume "\<exists>e. open_wb env ?w1 out = (Inl e, ?w1)"
          then obtain e where "open_wb env ?w1 out = (Inl e, ?w1)" by blast
          then have "r = Inl e \<and> w' = ?w1" using assms unfold1 by simp
          then show ?thesis by (intro exI[of _ "[?post]"]) (simp add: log_event_def)
        next
          assume o: "open_wb env ?w1 out = (Inr (), ?w2)"
          from file_write_cases[of env ?w2 out "content resp"] show ?thesis
          proof
            assume "\<exists>e. file_write env ?w2 out (content resp) = (Inl e, ?w2)"
            then obtain e where "file_write env ?w2 out (content resp) = (Inl e, ?w2)" by blast
            then have "r = Inl e \<and> w' = ?w2" using assms unfold1 o by simp
            then show ?thesis
              by (intro exI[of _ "[?post, OpenFile out]"]) (simp add: log_event_def write_file_def)
          next
            assume "file_write env ?w2 out (content resp) = (Inr (), ?w3)"
            then have "r = Inr out \<and> w' = ?w3" using assms unfold1 o by simp
            then show ?thesis using Some False Inr True
              by (intro exI[of _ "[?post, OpenFile out, WriteFile out]"])
                 (simp add: log_event_def write_file_def)
          qed
        qed
      qed
    qed
  qed
qed

lemma generate_audio_returns:
  assumes "resolve_api_key w key = Some k" and "k \<noteq> []"
    and "requests_post env (tts_url v) (tts_headers k) (tts_payload t) = Inr resp"
    and "status_code resp = 200" and "out \<noteq> []" and "\<forall>h c. fs_fault env h c = None"
  shows "fst (generate_audio env w t v out s key) = Inr out"
  using assms
  by (simp add: generate_audio_def open_wb_def file_write_def fs_call_def Let_def)

lemma subprocess_run_world:
  assumes "subprocess_run env w cmd = (r, w')"
  shows "trace w' = trace w @ [RunTool cmd] \<and> rng_pos w' = rng_pos w \<and> environ w' = environ w
       \<and> (\<forall>x. x \<noteq> last cmd \<longrightarrow> files w' x = files w x)
       \<and> (is_ok r \<longrightarrow> (\<exists>out. run_tool env cmd (files w) = Inr (0, out)
                              \<and> files w' = (files w)(last cmd := out)))"
  using assms
  by (auto simp: subprocess_run_def log_event_def Let_def is_ok_def
      split: sum.splits prod.splits if_splits)

lemma os_remove_world:
  assumes "os_remove env w p = (r, w')"
  shows "rng_pos w' = rng_pos w \<and> environ w' = environ w
       \<and> (case r of Inl e \<Rightarrow> w' = w
          | Inr u \<Rightarrow> trace w' = trace w @ [RemoveFile p] \<and> files w' = (files w)(p := None))"
  using assms
  by (auto simp: os_remove_def fs_call_def log_event_def delete_file_def split: option.splits)

lemma assemble_video_trace:
  assumes "assemble_video env w imgs a out duration m = (r, w')"
  shows "\<exists>evs. trace w' = trace w @ evs
       \<and> rng_pos w' = rng_pos w \<and> environ w' = environ w
       \<and> set (stages evs) \<subseteq> {AssembleVideo}
       \<and> written evs = [] \<and> pipe_calls evs = [] \<and> saved_images evs = []
       \<and> prefix (tool_outputs evs) [str_replace ''.mp4'' ''_tmp.mp4'' out, out]
       \<and> (\<forall>x. x \<noteq> str_replace ''.mp4'' ''_tmp.mp4'' out \<and> x \<noteq> out
               \<longrightarrow> files w' x = files w x)
       \<and> (\<forall>x. r = Inr x \<longrightarrow>
             x = out \<and> stages evs = [AssembleVideo, AssembleVideo, AssembleVideo]
             \<and> tool_outputs evs = [str_replace ''.mp4'' ''_tmp.mp4'' out, out]
             \<and> files w' (str_replace ''.mp4'' ''_tmp.mp4'' out) = None
             \<and> (str_replace ''.mp4'' ''_tmp.mp4'' out \<noteq> out \<longrightarrow>
                  (\<exists>fs o2. run_tool env
                              (ffmpeg_audio_cmd (str_replace ''.mp4'' ''_tmp.mp4'' out) a out) fs
                            = Inr (0, o2)
                        \<and> files w' out = o2)))"
proof (cases imgs)
  case Nil
  then have "r = Inl IndexError \<and> w' = w" using assms by (simp add: assemble_video_def)
  then show ?thesis by (intro exI[of _ "[]"]) simp
next
  case (Cons p ps)
  let ?tmp = "str_replace ''.mp4'' ''_tmp.mp4'' out"
  let ?d = "duration div int (length imgs)"
  have dur: "img_duration duration imgs = Inr ?d"
    using Cons by (simp add: img_duration_def py_floordiv_def)
  show ?thesis
  proof (cases "?d = 0")
    case True
    then have "r = Inl (ZeroDivisionError TrueDiv) \<and> w' = w"
      using assms Cons dur by (simp add: assemble_video_def py_recip_str_def)
    then show ?thesis by (intro exI[of _ "[]"]) simp
  next
    case False
    let ?c1 = "ffmpeg_img_cmd (float_recip_str env ?d)
                 (os_path_join (os_path_dirname p) ''img_%d.png'') ?tmp"
    let ?c2 = "ffmpeg_audio_cmd ?tmp a out"
    have l1: "last ?c1 = ?tmp" by (simp add: ffmpeg_img_cmd_def)
    have l2: "last ?c2 = out" by (simp add: ffmpeg_audio_cmd_def)
    obtain r1 w1 where s1: "subprocess_run env w ?c1 = (r1, w1)"
      by (cases "subprocess_run env w ?c1")
    note t1 = subprocess_run_world[OF s1, unfolded l1]
    have f1: "\<forall>x. x \<noteq> ?tmp \<and> x \<noteq> out \<longrightarrow> files w1 x = files w x" using t1 by simp
    have unfold1: "assemble_video env w imgs a out duration m =
        (case (r1, w1) of
           (Inl e, w1) \<Rightarrow> (Inl e, w1)
         | (Inr _, w1) \<Rightarrow>
             (case subprocess_run env w1 ?c2 of
                (Inl e, w2) \<Rightarrow> (Inl e, w2)
              | (Inr _, w2) \<Rightarrow>
                  (case os_remove env w2 ?tmp of
                     (Inl e, w3) \<Rightarrow> (Inl e, w3)
                   | (Inr _, w3) \<Rightarrow> (Inr out, w3))))"
      using Cons dur False s1 by (simp add: assemble_video_def py_recip_str_def Let_def)
    show ?thesis
    proof (cases r1)
      case (Inl e)
      then have "r = Inl e \<and> w' = w1" using assms unfold1 by simp
      then show ?thesis using t1 l1 f1 by (intro exI[of _ "[RunTool ?c1]"]) simp
    next
      case (Inr u1)
      obtain r2 w2 where s2: "subprocess_run env w1 ?c2 = (r2, w2)"
        by (cases "subprocess_run env w1 ?c2")
      note t2 = subprocess_run_world[OF s2, unfolded l2]
      have f2: "\<forall>x. x \<noteq> ?tmp \<and> x \<noteq> out \<longrightarrow> files w2 x = files w x" using t2 f1 by simp
      show ?thesis
      proof (cases r2)
        case (Inl e)
        then have "r = Inl e \<and> w' = w2" using assms unfold1 Inr s2 by simp
        then show ?thesis using t1 t2 l1 l2 f2
          by (intro exI[of _ "[RunTool ?c1, RunTool ?c2]"]) simp
      next
        case u2: (Inr u2)
        obtain o2 where o2: "run_tool env ?c2 (files w1) = Inr (0, o2)"
          "files w2 = (files w1)(out := o2)"
          using t2 u2 by (auto simp: is_ok_def)
        obtain r3 w3 where s3: "os_remove env w2 ?tmp = (r3, w3)"
          by (cases "os_remove env w2 ?tmp")
        note t3 = os_remove_world[OF s3]
        show ?thesis
        proof (cases r3)
          case (Inl e)
          then have "r = Inl e \<and> w' = w3" using assms unfold1 Inr u2 s2 s3 by simp
          then show ?thesis using t1 t2 t3 l1 l2 f2 Inl
            by (intro exI[of _ "[RunTool ?c1, RunTool ?c2]"]) simp
        next
          case u3: (Inr u3)
          then have rw: "r = Inr out \<and> w' = w3" using assms unfold1 Inr u2 s2 s3 by simp
          have f3: "files w3 = (files w2)(?tmp := None)" using t3 u3 by simp
          have a: "\<forall>x. x \<noteq> ?tmp \<and> x \<noteq> out \<longrightarrow> files w3 x = files w x"
            using f2 f3 by simp
          have b: "files w3 ?tmp = None" using f3 by simp
          have c: "?tmp \<noteq> out \<longrightarrow> (\<exists>fs o2. run_tool env ?c2 fs = Inr (0, o2) \<and> files w3 out = o2)"
            using f3 o2 by auto
          show ?thesis using rw t1 t2 t3 l1 l2 u3 a b c
            by (intro exI[of _ "[RunTool ?c1, RunTool ?c2, RemoveFile ?tmp]"]) simp
        qed
      qed
    qed
  qed
qed

lemma assemble_video_returns:
  assumes "imgs \<noteq> []" and "duration div int (length imgs) \<noteq> 0"
    and "\<forall>cmd fs. \<exists>out. run_tool env cmd fs = Inr (0, Some out)"
    and "\<forall>h c. fs_fault env h c = None"
    and "str_replace ''.mp4'' ''_tmp.mp4'' out \<noteq> out"
  shows "is_ok (fst (assemble_video env w imgs a out duration m))"
proof -
  obtain p ps where i: "imgs = p # ps" using assms(1) by (cases imgs) auto
  let ?tmp = "str_replace ''.mp4'' ''_tmp.mp4'' out"
  let ?d = "duration div int (length imgs)"
  let ?c1 = "ffmpeg_img_cmd (float_recip_str env ?d)
               (os_path_join (os_path_dirname p) ''img_%d.png'') ?tmp"
  let ?c2 = "ffmpeg_audio_cmd ?tmp a out"
  have l1: "last ?c1 = ?tmp" by (simp add: ffmpeg_img_cmd_def)
  have l2: "last ?c2 = out" by (simp add: ffmpeg_audio_cmd_def)
  have dur: "img_duration duration imgs = Inr ?d"
    using i by (simp add: img_duration_def py_floordiv_def)
  obtain o1 where o1: "run_tool env ?c1 (files w) = Inr (0, Some o1)" using assms(3) by blast
  let ?w1 = "(log_event (RunTool ?c1) w)\<lparr>files := (files w)(?tmp \<mapsto> o1)\<rparr>"
  have s1: "subprocess_run env w ?c1 = (Inr (), ?w1)"
    using o1 l1 by (simp add: subprocess_run_def Let_def log_event_def)
  obtain o2 where o2: "run_tool env ?c2 (files ?w1) = Inr (0, Some o2)" using assms(3) by blast
  let ?w2 = "(log_event (RunTool ?c2) ?w1)\<lparr>files := (files ?w1)(out \<mapsto> o2)\<rparr>"
  have s2: "subprocess_run env ?w1 ?c2 = (Inr (), ?w2)"
    using o2 l2 by (simp add: subprocess_run_def Let_def log_event_def)
  have "files ?w2 ?tmp = Some o1" using assms(5) by (simp add: log_event_def)
  then have "is_ok (fst (os_remove env ?w2 ?tmp))"
    using assms(4) by (simp add: os_remove_def fs_call_def is_ok_def)
  then obtain w3 where s3: "os_remove env ?w2 ?tmp = (Inr (), w3)"
    by (cases "os_remove env ?w2 ?tmp") (auto simp: is_ok_def split: sum.splits)
  have "assemble_video env w imgs a out duration m = (Inr out, w3)"
    using i dur assms(2) s1 s2 s3
    by (simp add: assemble_video_def py_recip_str_def Let_def)
  then show ?thesis by (simp add: is_ok_def)
qed

subsection \<open>The run of the pipeline\<close>

lemma sorted_one_stage: "set xs \<subseteq> {s} \<Longrightarrow> sorted (map stage_rank xs)"
  by (induction xs) auto

lemma pipeline_order:
  assumes "set (stages e2) \<subseteq> {GenerateImages}" "set (stages e3) \<subseteq> {GenerateAudio}"
    "set (stages e4) \<subseteq> {AssembleVideo}"
  shows "sorted (map stage_rank (stages (Generate m t # e2 @ e3 @ e4)))"
proof -
  have a: "\<forall>x\<in>set (stages e2). stage_rank x = 2" using assms(1) by auto
  have b: "\<forall>x\<in>set (stages e3). stage_rank x = 3" using assms(2) by auto
  have c: "\<forall>x\<in>set (stages e4). stage_rank x = 4" using assms(3) by auto
  show ?thesis
    using a b c sorted_one_stage[OF assms(1)] sorted_one_stage[OF assms(2)]
      sorted_one_stage[OF assms(3)]
    by (auto simp: sorted_append)
qed

lemma pipeline_written:
  assumes "written e2 = saved_images e2" "prefix (saved_images e2) (img_paths jd 0 n)"
    "set (written e3) \<subseteq> {ap}" "written e4 = []"
  shows "\<forall>p\<in>set (written (Generate m t # e2 @ e3 @ e4)).
           (\<exists>k. p = os_path_join jd (img_name k)) \<or> p = ap"
proof
  fix p
  assume "p \<in> set (written (Generate m t # e2 @ e3 @ e4))"
  then have "p \<in> set (saved_images e2) \<or> p = ap"
    using assms(1,3,4) by auto
  moreover have "set (saved_images e2) \<subseteq> set (img_paths jd 0 n)"
    using assms(2) by (rule set_mono_prefix)
  ultimately show "(\<exists>k. p = os_path_join jd (img_name k)) \<or> p = ap"
    using set_img_paths[of p jd 0 n] by blast
qed

lemma pipeline_counts:
  assumes "prefix (pipe_calls e2) ps" "prefix (saved_images e2) (img_paths jd 0 (length ps))"
    "length ps \<le> 3" "pipe_calls e3 = []" "saved_images e3 = []"
    "pipe_calls e4 = []" "saved_images e4 = []"
  shows "length (pipe_calls (Generate m t # e2 @ e3 @ e4)) \<le> 3
       \<and> length (saved_images (Generate m t # e2 @ e3 @ e4)) \<le> 3"
  using assms prefix_length_le[OF assms(1)] prefix_length_le[OF assms(2)] by simp

lemma pipeline_tools:
  assumes "tool_outputs e2 = []" "tool_outputs e3 = []" "prefix (tool_outputs e4) [tmp, vp]"
  shows "set (tool_outputs (Generate m t # e2 @ e3 @ e4)) \<subseteq> {tmp, vp}"
  using assms(1,2) set_mono_prefix[OF assms(3)] by simp

lemma frame_step:
  assumes "\<forall>x. files w1 x \<noteq> files w x \<longrightarrow> A x"
    and "\<forall>x. \<not> B x \<longrightarrow> files w2 x = files w1 x"
    and "\<forall>x. B x \<longrightarrow> A x"
  shows "\<forall>x. files w2 x \<noteq> files w x \<longrightarrow> A x"
  using assms by metis

lemma img_paths_nth_name: "i < n \<Longrightarrow> img_paths d 0 n ! i = os_path_join d (img_name i)"
  by (simp add: img_paths_def)

lemma pipeline_run:
  assumes run: "process_video_pipeline env w intext template voice user out_dir duration key = (r, w')"
  shows "(\<exists>e. fs_fault env (trace w) (MakeDirs (os_path_join out_dir (new_job_id env w))) = Some e
            \<and> r = Inl e \<and> w' = w\<lparr>rng_pos := rng_pos w + 1\<rparr>)
   \<or> (fs_fault env (trace w) (MakeDirs (os_path_join out_dir (new_job_id env w))) = None
      \<and> (\<exists>evs. trace w' = trace w @ MakeDirs (os_path_join out_dir (new_job_id env w)) # evs
     \<and> rng_pos w' = rng_pos w + 1
     \<and> sorted (map stage_rank (stages evs))
     \<and> (\<forall>p\<in>set (written evs).
           (\<exists>k. p = os_path_join (os_path_join out_dir (new_job_id env w)) (img_name k))
           \<or> p = os_path_join (os_path_join out_dir (new_job_id env w)) ''audio.mp3'')
     \<and> length (pipe_calls evs) \<le> 3
     \<and> length (saved_images evs) \<le> 3
     \<and> set (tool_outputs evs)
           \<subseteq> {str_replace ''.mp4'' ''_tmp.mp4''
                 (os_path_join (os_path_join out_dir (new_job_id env w)) ''video.mp4''),
                os_path_join (os_path_join out_dir (new_job_id env w)) ''video.mp4''}
     \<and> (\<forall>x. files w' x \<noteq> files w x \<longrightarrow>
           (\<exists>k. x = os_path_join (os_path_join out_dir (new_job_id env w)) (img_name k))
           \<or> x = os_path_join (os_path_join out_dir (new_job_id env w)) ''audio.mp3''
           \<or> x = str_replace ''.mp4'' ''_tmp.mp4''
                   (os_path_join (os_path_join out_dir (new_job_id env w)) ''video.mp4'')
           \<or> x = os_path_join (os_path_join out_dir (new_job_id env w)) ''video.mp4'')
     \<and> (\<forall>res. r = Inr res \<longrightarrow>
           job_id res = new_job_id env w
         \<and> text_generation env default_model_name intext = Inr (enhanced_text res)
         \<and> prompts res = extract_prompts template (enhanced_text res)
         \<and> image_paths res
             = img_paths (os_path_join out_dir (new_job_id env w)) 0 (length (prompts res))
         \<and> audio_path res = os_path_join (os_path_join out_dir (new_job_id env w)) ''audio.mp3''
         \<and> video_path res = os_path_join (os_path_join out_dir (new_job_id env w)) ''video.mp4''
         \<and> stages evs = EnhanceText # replicate (1 + 2 * length (prompts res)) GenerateImages
             @ [GenerateAudio, GenerateAudio, GenerateAudio,
                AssembleVideo, AssembleVideo, AssembleVideo]
         \<and> written evs = image_paths res @ [audio_path res, audio_path res]
         \<and> tool_outputs evs = [str_replace ''.mp4'' ''_tmp.mp4'' (video_path res), video_path res]
         \<and> pipe_calls evs = prompts res
         \<and> saved_images evs = image_paths res
         \<and> (\<forall>i<length (prompts res).
               first_image env default_model_id (prompts res ! i) \<noteq> None
               \<and> files w' (image_paths res ! i)
                   = first_image env default_model_id (prompts res ! i))
         \<and> (\<exists>k resp. resolve_api_key w key = Some k \<and> k \<noteq> []
               \<and> requests_post env (tts_url voice) (tts_headers k)
                     (tts_payload (enhanced_text res)) = Inr resp
               \<and> status_code resp = 200
               \<and> files w' (audio_path res) = Some (content resp))
         \<and> (\<exists>fs o2. run_tool env
                         (ffmpeg_audio_cmd (str_replace ''.mp4'' ''_tmp.mp4'' (video_path res))
                            (audio_path res) (video_path res)) fs = Inr (0, o2)
               \<and> files w' (video_path res) = o2)
         \<and> files w' (str_replace ''.mp4'' ''_tmp.mp4'' (video_path res)) = None)))"
  (is "?F \<or> (?N \<and> (\<exists>evs. ?P evs))")
proof -
  let ?jd = "os_path_join out_dir (new_job_id env w)"
  let ?ap = "os_path_join ?jd ''audio.mp3''"
  let ?vp = "os_path_join ?jd ''video.mp4''"
  let ?tmp = "str_replace ''.mp4'' ''_tmp.mp4'' ?vp"
  let ?wr = "w\<lparr>rng_pos := rng_pos w + 1\<rparr>"
  let ?w0 = "log_event (MakeDirs ?jd) ?wr"
  let ?G = "Generate default_model_name intext"
  let ?A = "\<lambda>x. (\<exists>k. x = os_path_join ?jd (img_name k)) \<or> x = ?ap \<or> x = ?tmp \<or> x = ?vp"
  have jd: "?jd \<noteq> []" "last ?jd \<noteq> sep" using job_dir_ends[of out_dir env w] by simp_all
  note apart = job_paths_apart[OF jd]
  from os_makedirs_cases[of env ?wr ?jd] show ?thesis
  proof
    assume "\<exists>e. os_makedirs env ?wr ?jd = (Inl e, ?wr)
              \<and> (?jd = [] \<or> fs_fault env (trace ?wr) (MakeDirs ?jd) = Some e)"
    then obtain e where m: "os_makedirs env ?wr ?jd = (Inl e, ?wr)"
      "fs_fault env (trace w) (MakeDirs ?jd) = Some e"
      using jd(1) by auto
    have "r = Inl e \<and> w' = ?wr"
      using run m(1) by (simp add: process_video_pipeline_def Let_def)
    then have "?F" using m(2) by simp
    then show ?thesis by (rule disjI1)
  next
    assume "?jd \<noteq> [] \<and> fs_fault env (trace ?wr) (MakeDirs ?jd) = None
              \<and> os_makedirs env ?wr ?jd = (Inr (), ?w0)"
    then have mk: "os_makedirs env ?wr ?jd = (Inr (), ?w0)" and nf: "?N" by simp_all
    have fail: "?P (?G # e2 @ e3 @ e4)"
      if "trace w' = trace w @ MakeDirs ?jd # ?G # e2 @ e3 @ e4" "rng_pos w' = rng_pos w + 1"
        "\<forall>res. r \<noteq> Inr res"
        "set (stages e2) \<subseteq> {GenerateImages}" "set (stages e3) \<subseteq> {GenerateAudio}"
        "set (stages e4) \<subseteq> {AssembleVideo}"
        "written e2 = saved_images e2" "prefix (saved_images e2) (img_paths ?jd 0 (length ps))"
        "set (written e3) \<subseteq> {?ap}" "written e4 = []"
        "prefix (pipe_calls e2) ps" "length ps \<le> 3" "pipe_calls e3 = []" "saved_images e3 = []"
        "pipe_calls e4 = []" "saved_images e4 = []"
        "tool_outputs e2 = []" "tool_outputs e3 = []"
        "prefix (tool_outputs e4) [?tmp, ?vp]"
        "\<forall>x. files w' x \<noteq> files w x \<longrightarrow> ?A x"
      for e2 e3 e4 ps
    proof -
      note o = pipeline_order[OF that(4) that(5) that(6), of default_model_name intext]
      note wr = pipeline_written[OF that(7) that(8) that(9) that(10), of default_model_name intext]
      note ct = pipeline_counts[OF that(11) that(8) that(12) that(13) that(14) that(15) that(16),
                  of default_model_name intext]
      note tl = pipeline_tools[OF that(17) that(18) that(19), of default_model_name intext]
      have v: "\<forall>res. r = Inr res \<longrightarrow> Q res" for Q using that(3) by simp
      show ?thesis
        using that(1,2) o wr conjunct1[OF ct] conjunct2[OF ct] tl that(20) v
        by (intro conjI) assumption+
    qed
    obtain r1 w1 where s1: "enhance_text env ?w0 intext default_model_name = (r1, w1)"
      by (cases "enhance_text env ?w0 intext default_model_name")
    from enhance_text_trace[OF s1]
    have t1: "trace w1 = trace w @ [MakeDirs ?jd, ?G]" "rng_pos w1 = rng_pos w + 1"
      "environ w1 = environ w" "r1 = text_generation env default_model_name intext"
      "files w1 = files w"
      by (simp_all add: log_event_def)
    have g1: "\<forall>x. files w1 x \<noteq> files w x \<longrightarrow> ?A x" using t1(5) by simp
    have ex: "\<exists>evs. ?P evs"
    proof (cases r1)
      case (Inl e)
      then have "r = Inl e \<and> w' = w1"
        using run mk s1 by (simp add: process_video_pipeline_def Let_def)
      then have leaf1: "?P (?G # [] @ [] @ [])"
        using t1 by (intro fail[where ps="[]"]) simp_all
      show ?thesis by (rule exI) (rule leaf1)
    next
      case (Inr enhanced)
      let ?ps = "extract_prompts template enhanced"
      have lps: "length ?ps \<le> 3" by (rule length_extract_prompts)
      obtain r2 w2 where s2: "generate_images env w1 ?ps ?jd default_model_id = (r2, w2)"
        by (cases "generate_images env w1 ?ps ?jd default_model_id")
      from generate_images_trace[OF s2] obtain e2 where
        e2: "trace w2 = trace w1 @ e2" "rng_pos w2 = rng_pos w1" "environ w2 = environ w1"
          "set (stages e2) \<subseteq> {GenerateImages}" "prefix (pipe_calls e2) ?ps"
          "prefix (saved_images e2) (img_paths ?jd 0 (length ?ps))"
          "written e2 = saved_images e2" "tool_outputs e2 = []"
          "\<forall>paths. r2 = Inr paths \<longrightarrow>
               paths = img_paths ?jd 0 (length ?ps)
               \<and> pipe_calls e2 = ?ps \<and> saved_images e2 = paths
               \<and> stages e2 = replicate (1 + 2 * length ?ps) GenerateImages"
          "\<forall>x. x \<notin> set (img_paths ?jd 0 (length ?ps)) \<longrightarrow> files w2 x = files w1 x"
        by blast
      have b2: "\<forall>x. x \<in> set (img_paths ?jd 0 (length ?ps)) \<longrightarrow> ?A x"
        using set_img_paths[of _ ?jd 0 "length ?ps"] by blast
      have g2: "\<forall>x. files w2 x \<noteq> files w x \<longrightarrow> ?A x"
        using g1 e2(10) b2 by (rule frame_step[where B = "\<lambda>x. x \<in> set (img_paths ?jd 0 (length ?ps))"])
      show ?thesis
      proof (cases r2)
        case (Inl e)
        then have "r = Inl e \<and> w' = w2"
          using run mk s1 s2 Inr by (simp add: process_video_pipeline_def Let_def)
        then have leaf2: "?P (?G # e2 @ [] @ [])"
          using t1 e2(1-8) lps g2 by (intro fail[where ps="?ps"]) simp_all
        show ?thesis by (rule exI) (rule leaf2)
      next
        case paths: (Inr paths)
        obtain r3 w3 where s3: "generate_audio env w2 enhanced voice ?ap 1 key = (r3, w3)"
          by (cases "generate_audio env w2 enhanced voice ?ap 1 key")
        from generate_audio_trace[OF s3] obtain e3 where
          e3: "trace w3 = trace w2 @ e3" "rng_pos w3 = rng_pos w2" "environ w3 = environ w2"
            "set (stages e3) \<subseteq> {GenerateAudio}" "set (written e3) \<subseteq> {?ap}"
            "pipe_calls e3 = []" "saved_images e3 = []" "tool_outputs e3 = []"
            "\<forall>x. r3 = Inr x \<longrightarrow>
               x = ?ap \<and> stages e3 = [GenerateAudio, GenerateAudio, GenerateAudio]
               \<and> written e3 = [?ap, ?ap]
               \<and> (\<exists>k resp. resolve_api_key w2 key = Some k \<and> k \<noteq> []
                     \<and> requests_post env (tts_url voice) (tts_headers k) (tts_payload enhanced)
                         = Inr resp
                     \<and> status_code resp = 200 \<and> files w3 ?ap = Some (content resp))"
            "\<forall>x. x \<noteq> ?ap \<longrightarrow> files w3 x = files w2 x"
          by blast
        have g3: "\<forall>x. files w3 x \<noteq> files w x \<longrightarrow> ?A x"
          using g2 _ _
        proof (rule frame_step[where B = "\<lambda>x. x = ?ap"])
          show "\<forall>x. \<not> x = ?ap \<longrightarrow> files w3 x = files w2 x" using e3(10) by simp
          show "\<forall>x. x = ?ap \<longrightarrow> ?A x" by simp
        qed
        show ?thesis
        proof (cases r3)
          case (Inl e)
          then have "r = Inl e \<and> w' = w3"
            using run mk s1 s2 s3 Inr paths by (simp add: process_video_pipeline_def Let_def)
          then have leaf3: "?P (?G # e2 @ e3 @ [])"
            using t1 e2(1-8) e3(1-8) lps g3 by (intro fail[where ps="?ps"]) simp_all
          show ?thesis by (rule exI) (rule leaf3)
        next
          case a: (Inr x3)
          obtain r4 w4 where s4: "assemble_video env w3 paths ?ap ?vp duration None = (r4, w4)"
            by (cases "assemble_video env w3 paths ?ap ?vp duration None")
          from assemble_video_trace[OF s4] obtain e4 where
            e4: "trace w4 = trace w3 @ e4" "rng_pos w4 = rng_pos w3" "environ w4 = environ w3"
              "set (stages e4) \<subseteq> {AssembleVideo}"
              "written e4 = []" "pipe_calls e4 = []" "saved_images e4 = []"
              "prefix (tool_outputs e4) [?tmp, ?vp]"
              "\<forall>x. r4 = Inr x \<longrightarrow>
                 x = ?vp \<and> stages e4 = [AssembleVideo, AssembleVideo, AssembleVideo]
                 \<and> tool_outputs e4 = [?tmp, ?vp]
                 \<and> files w4 ?tmp = None
                 \<and> (?tmp \<noteq> ?vp \<longrightarrow>
                      (\<exists>fs o2. run_tool env (ffmpeg_audio_cmd ?tmp ?ap ?vp) fs = Inr (0, o2)
                            \<and> files w4 ?vp = o2))"
              "\<forall>x. x \<noteq> ?tmp \<and> x \<noteq> ?vp \<longrightarrow> files w4 x = files w3 x"
            by blast
          have g4: "\<forall>x. files w4 x \<noteq> files w x \<longrightarrow> ?A x"
            using g3 _ _
          proof (rule frame_step[where B = "\<lambda>x. x = ?tmp \<or> x = ?vp"])
            show "\<forall>x. \<not> (x = ?tmp \<or> x = ?vp) \<longrightarrow> files w4 x = files w3 x"
              using e4(10) by simp
            show "\<forall>x. x = ?tmp \<or> x = ?vp \<longrightarrow> ?A x" by blast
          qed
          show ?thesis
          proof (cases r4)
            case (Inl e)
            then have "r = Inl e \<and> w' = w4"
              using run mk s1 s2 s3 s4 Inr paths a
              by (simp add: process_video_pipeline_def Let_def)
            then have leaf4: "?P (?G # e2 @ e3 @ e4)"
              using t1 e2(1-8) e3(1-8) e4(1-8) lps g4 by (intro fail[where ps="?ps"]) simp_all
            show ?thesis by (rule exI) (rule leaf4)
          next
            case v: (Inr x4)
            define R where "R = \<lparr>job_id = new_job_id env w, video_path = ?vp,
                 image_paths = paths, audio_path = ?ap, prompts = ?ps,
                 enhanced_text = enhanced\<rparr>"
            have res: "r = Inr R" and w': "w' = w4"
              using run mk s1 s2 s3 s4 Inr paths a v
              by (simp_all add: process_video_pipeline_def Let_def R_def)
            have p2: "paths = img_paths ?jd 0 (length ?ps)" "pipe_calls e2 = ?ps"
              "saved_images e2 = paths" "stages e2 = replicate (1 + 2 * length ?ps) GenerateImages"
              using e2(9) paths by simp_all
            have p3: "stages e3 = [GenerateAudio, GenerateAudio, GenerateAudio]"
              "written e3 = [?ap, ?ap]"
              using e3(9) a by simp_all
            have "\<exists>k resp. resolve_api_key w2 key = Some k \<and> k \<noteq> []
                     \<and> requests_post env (tts_url voice) (tts_headers k) (tts_payload enhanced)
                         = Inr resp
                     \<and> status_code resp = 200 \<and> files w3 ?ap = Some (content resp)"
              using e3(9) a by simp
            then obtain k resp where au: "resolve_api_key w2 key = Some k" "k \<noteq> []"
              "requests_post env (tts_url voice) (tts_headers k) (tts_payload enhanced) = Inr resp"
              "status_code resp = 200" "files w3 ?ap = Some (content resp)"
              by (elim exE conjE)
            have p4: "stages e4 = [AssembleVideo, AssembleVideo, AssembleVideo]"
              "tool_outputs e4 = [?tmp, ?vp]" "files w4 ?tmp = None"
              using e4(9) v by simp_all
            have "?tmp \<noteq> ?vp \<longrightarrow>
                      (\<exists>fs o2. run_tool env (ffmpeg_audio_cmd ?tmp ?ap ?vp) fs = Inr (0, o2)
                            \<and> files w4 ?vp = o2)"
              using e4(9) v by simp
            then have "\<exists>fs o2. run_tool env (ffmpeg_audio_cmd ?tmp ?ap ?vp) fs = Inr (0, o2)
                            \<and> files w4 ?vp = o2"
              using apart(3)[symmetric] by (rule mp)
            then obtain fs o2 where vi: "run_tool env (ffmpeg_audio_cmd ?tmp ?ap ?vp) fs = Inr (0, o2)"
              "files w4 ?vp = o2"
              by (elim exE conjE)
            have tr: "trace w' = trace w @ MakeDirs ?jd # ?G # e2 @ e3 @ e4"
              using w' t1(1) e2(1) e3(1) e4(1) by simp
            have rg: "rng_pos w' = rng_pos w + 1"
              using w' t1(2) e2(2) e3(2) e4(2) by simp
            have so: "sorted (map stage_rank (stages (?G # e2 @ e3 @ e4)))"
              by (rule pipeline_order[OF e2(4) e3(4) e4(4)])
            have wr: "\<forall>p\<in>set (written (?G # e2 @ e3 @ e4)).
                        (\<exists>k. p = os_path_join ?jd (img_name k)) \<or> p = ?ap"
              by (rule pipeline_written[OF e2(7) e2(6) e3(5) e4(5)])
            note ct = pipeline_counts[OF e2(5) e2(6) lps e3(6) e3(7) e4(6) e4(7),
                        of default_model_name intext]
            note tl = pipeline_tools[OF e2(8) e3(8) e4(8), of default_model_name intext]
            have fr: "\<forall>x. files w' x \<noteq> files w x \<longrightarrow> ?A x" using g4 w' by simp
            have c1: "job_id R = new_job_id env w" by (simp add: R_def)
            have c2: "text_generation env default_model_name intext = Inr (enhanced_text R)"
              using t1(4) Inr by (simp add: R_def)
            have c3: "prompts R = extract_prompts template (enhanced_text R)" by (simp add: R_def)
            have c4: "image_paths R = img_paths ?jd 0 (length (prompts R))"
              using p2(1) by (simp add: R_def)
            have c5: "audio_path R = ?ap" by (simp add: R_def)
            have c6: "video_path R = ?vp" by (simp add: R_def)
            have c7: "stages (?G # e2 @ e3 @ e4)
                   = EnhanceText # replicate (1 + 2 * length (prompts R)) GenerateImages
                     @ [GenerateAudio, GenerateAudio, GenerateAudio,
                        AssembleVideo, AssembleVideo, AssembleVideo]"
              using p2(4) p3(1) p4(1) by (simp add: R_def)
            have c8: "written (?G # e2 @ e3 @ e4) = image_paths R @ [audio_path R, audio_path R]"
              using e2(7) p2(3) p3(2) e4(5) by (simp add: R_def)
            have c9: "tool_outputs (?G # e2 @ e3 @ e4)
                   = [str_replace ''.mp4'' ''_tmp.mp4'' (video_path R), video_path R]"
              using e2(8) e3(8) p4(2) by (simp add: R_def)
            have c10: "pipe_calls (?G # e2 @ e3 @ e4) = prompts R"
              using p2(2) e3(6) e4(6) by (simp add: R_def)
            have c11: "saved_images (?G # e2 @ e3 @ e4) = image_paths R"
              using p2(3) e3(7) e4(7) by (simp add: R_def)
            have s2': "generate_images env w1 ?ps ?jd default_model_id = (Inr paths, w2)"
              using s2 paths by simp
            note gf = generate_images_files[OF s2']
            have c12: "\<forall>i<length (prompts R).
                 first_image env default_model_id (prompts R ! i) \<noteq> None
                 \<and> files w' (image_paths R ! i)
                     = first_image env default_model_id (prompts R ! i)"
            proof (intro allI impI)
              fix i
              assume "i < length (prompts R)"
              then have i: "i < length ?ps" by (simp add: R_def)
              let ?q = "os_path_join ?jd (img_name i)"
              have q: "img_paths ?jd 0 (length ?ps) ! i = ?q"
                using i by (rule img_paths_nth_name)
              note gi = gf[THEN spec, of i, THEN mp, OF i]
              have "files w4 ?q = files w3 ?q" using e4(10) apart(5,6)[of i] by simp
              also have "\<dots> = files w2 ?q" using e3(10) apart(4)[of i] by simp
              also have "\<dots> = first_image env default_model_id (?ps ! i)"
                using gi unfolding q by (rule conjunct2)
              finally have "files w4 ?q = first_image env default_model_id (?ps ! i)" .
              then show "first_image env default_model_id (prompts R ! i) \<noteq> None
                 \<and> files w' (image_paths R ! i)
                     = first_image env default_model_id (prompts R ! i)"
                using gi q p2(1) w' by (simp add: R_def)
            qed
            have "files w4 ?ap = files w3 ?ap" using e4(10) apart(1,2) by simp
            then have fa: "files w' (audio_path R) = Some (content resp)"
              using au(5) w' by (simp add: R_def)
            have ke: "resolve_api_key w key = Some k"
              using au(1) resolve_api_key_environ[of w2 w key] e2(3) t1(3) by simp
            have rq: "requests_post env (tts_url voice) (tts_headers k)
                        (tts_payload (enhanced_text R)) = Inr resp"
              using au(3) by (simp add: R_def)
            have c13: "\<exists>k resp. resolve_api_key w key = Some k \<and> k \<noteq> []
                 \<and> requests_post env (tts_url voice) (tts_headers k)
                       (tts_payload (enhanced_text R)) = Inr resp
                 \<and> status_code resp = 200
                 \<and> files w' (audio_path R) = Some (content resp)"
              using ke au(2) rq au(4) fa by blast
            have rt: "run_tool env
                        (ffmpeg_audio_cmd (str_replace ''.mp4'' ''_tmp.mp4'' (video_path R))
                           (audio_path R) (video_path R)) fs = Inr (0, o2)"
              using vi(1) by (simp add: R_def)
            have fv: "files w' (video_path R) = o2" using vi(2) w' by (simp add: R_def)
            have c14: "\<exists>fs o2. run_tool env
                           (ffmpeg_audio_cmd (str_replace ''.mp4'' ''_tmp.mp4'' (video_path R))
                              (audio_path R) (video_path R)) fs = Inr (0, o2)
                 \<and> files w' (video_path R) = o2"
              using rt fv by blast
            have c15: "files w' (str_replace ''.mp4'' ''_tmp.mp4'' (video_path R)) = None"
              using p4(3) w' by (simp add: R_def)
            have su: "\<forall>res. r = Inr res \<longrightarrow>
                 job_id res = new_job_id env w
               \<and> text_generation env default_model_name intext = Inr (enhanced_text res)
               \<and> prompts res = extract_prompts template (enhanced_text res)
               \<and> image_paths res = img_paths ?jd 0 (length (prompts res))
               \<and> audio_path res = ?ap
               \<and> video_path res = ?vp
               \<and> stages (?G # e2 @ e3 @ e4)
                   = EnhanceText # replicate (1 + 2 * length (prompts res)) GenerateImages
                     @ [GenerateAudio, GenerateAudio, GenerateAudio,
                        AssembleVideo, AssembleVideo, AssembleVideo]
               \<and> written (?G # e2 @ e3 @ e4)
                   = image_paths res @ [audio_path res, audio_path res]
               \<and> tool_outputs (?G # e2 @ e3 @ e4)
                   = [str_replace ''.mp4'' ''_tmp.mp4'' (video_path res), video_path res]
               \<and> pipe_calls (?G # e2 @ e3 @ e4) = prompts res
               \<and> saved_images (?G # e2 @ e3 @ e4) = image_paths res
               \<and> (\<forall>i<length (prompts res).
                     first_image env default_model_id (prompts res ! i) \<noteq> None
                     \<and> files w' (image_paths res ! i)
                         = first_image env default_model_id (prompts res ! i))
               \<and> (\<exists>k resp. resolve_api_key w key = Some k \<and> k \<noteq> []
                     \<and> requests_post env (tts_url voice) (tts_headers k)
                           (tts_payload (enhanced_text res)) = Inr resp
                     \<and> status_code resp = 200
                     \<and> files w' (audio_path res) = Some (content resp))
               \<and> (\<exists>fs o2. run_tool env
                               (ffmpeg_audio_cmd
                                  (str_replace ''.mp4'' ''_tmp.mp4'' (video_path res))
                                  (audio_path res) (video_path res)) fs = Inr (0, o2)
                     \<and> files w' (video_path res) = o2)
               \<and> files w' (str_replace ''.mp4'' ''_tmp.mp4'' (video_path res)) = None"
            proof (intro allI impI)
              fix res
              assume "r = Inr res"
              then have e: "res = R" using res by simp
              show "job_id res = new_job_id env w
               \<and> text_generation env default_model_name intext = Inr (enhanced_text res)
               \<and> prompts res = extract_prompts template (enhanced_text res)
               \<and> image_paths res = img_paths ?jd 0 (length (prompts res))
               \<and> audio_path res = ?ap
               \<and> video_path res = ?vp
               \<and> stages (?G # e2 @ e3 @ e4)
                   = EnhanceText # replicate (1 + 2 * length (prompts res)) GenerateImages
                     @ [GenerateAudio, GenerateAudio, GenerateAudio,
                        AssembleVideo, AssembleVideo, AssembleVideo]
               \<and> written (?G # e2 @ e3 @ e4)
                   = image_paths res @ [audio_path res, audio_path res]
               \<and> tool_outputs (?G # e2 @ e3 @ e4)
                   = [str_replace ''.mp4'' ''_tmp.mp4'' (video_path res), video_path res]
               \<and> pipe_calls (?G # e2 @ e3 @ e4) = prompts res
               \<and> saved_images (?G # e2 @ e3 @ e4) = image_paths res
               \<and> (\<forall>i<length (prompts res).
                     first_image env default_model_id (prompts res ! i) \<noteq> None
                     \<and> files w' (image_paths res ! i)
                         = first_image env default_model_id (prompts res ! i))
               \<and> (\<exists>k resp. resolve_api_key w key = Some k \<and> k \<noteq> []
                     \<and> requests_post env (tts_url voice) (tts_headers k)
                           (tts_payload (enhanced_text res)) = Inr resp
                     \<and> status_code resp = 200
                     \<and> files w' (audio_path res) = Some (content resp))
               \<and> (\<exists>fs o2. run_tool env
                               (ffmpeg_audio_cmd
                                  (str_replace ''.mp4'' ''_tmp.mp4'' (video_path res))
                                  (audio_path res) (video_path res)) fs = Inr (0, o2)
                     \<and> files w' (video_path res) = o2)
               \<and> files w' (str_replace ''.mp4'' ''_tmp.mp4'' (video_path res)) = None"
                unfolding e
                using c1 c2 c3 c4 c5 c6 c7 c8 c9 c10 c11 c12 c13 c14 c15
                by (intro conjI) assumption+
            qed
            have leaf5: "?P (?G # e2 @ e3 @ e4)"
              using tr rg so wr conjunct1[OF ct] conjunct2[OF ct] tl fr su
              by (intro conjI) assumption+
            show ?thesis by (rule exI) (rule leaf5)
          qed
        qed
      qed
    qed
    show ?thesis using nf ex by (intro disjI2 conjI)
  qed
qed

subsection \<open>When the pipeline returns\<close>

lemma pipeline_returns:
  assumes co: "cooperative env"
    and key: "resolve_api_key w key = Some k" "k \<noteq> []"
    and tg: "text_generation env default_model_name intext = Inr enhanced"
    and ne: "extract_prompts template enhanced \<noteq> []"
    and du: "int (length (extract_prompts template enhanced)) \<le> duration"
  shows "is_ok (fst (process_video_pipeline env w intext template voice user out_dir duration key))"
proof -
  let ?jd = "os_path_join out_dir (new_job_id env w)"
  let ?ap = "os_path_join ?jd ''audio.mp3''"
  let ?vp = "os_path_join ?jd ''video.mp4''"
  let ?wr = "w\<lparr>rng_pos := rng_pos w + 1\<rparr>"
  let ?w0 = "log_event (MakeDirs ?jd) ?wr"
  let ?w1 = "log_event (Generate default_model_name intext) ?w0"
  let ?ps = "extract_prompts template enhanced"
  have nofault: "\<forall>h c. fs_fault env h c = None"
    and lp: "from_pretrained env default_model_id = Inr ()"
    and pk: "\<forall>p. pipe_ok env default_model_id p"
    and rp: "\<forall>url headers payload. \<exists>resp.
               requests_post env url headers payload = Inr resp \<and> status_code resp = 200"
    and rt: "\<forall>cmd fs. \<exists>out. run_tool env cmd fs = Inr (0, Some out)"
    using co by (simp_all add: cooperative_def)
  have jd: "?jd \<noteq> []" "last ?jd \<noteq> sep" using job_dir_ends[of out_dir env w] by simp_all
  note apart = job_paths_apart[OF jd]
  have mk: "os_makedirs env ?wr ?jd = (Inr (), ?w0)"
    using jd(1) nofault by (simp add: os_makedirs_def fs_call_def)
  have s1: "enhance_text env ?w0 intext default_model_name = (Inr enhanced, ?w1)"
    using tg by (simp add: enhance_text_def)
  have "is_ok (fst (generate_images env ?w1 ?ps ?jd default_model_id))"
  proof (rule generate_images_returns)
    show "is_ok (from_pretrained env default_model_id)" using lp by (simp add: is_ok_def)
    show "?jd \<noteq> []" by (rule jd(1))
    show "list_all (pipe_ok env default_model_id) ?ps" using pk by (simp add: list_all_iff)
    show "\<forall>h c. fs_fault env h c = None" by (rule nofault)
  qed
  then obtain paths w2 where s2: "generate_images env ?w1 ?ps ?jd default_model_id = (Inr paths, w2)"
    by (cases "generate_images env ?w1 ?ps ?jd default_model_id")
       (auto simp: is_ok_def split: sum.splits)
  from generate_images_trace[OF s2] obtain e2 where
    e2: "trace w2 = trace ?w1 @ e2" "environ w2 = environ ?w1"
      "\<forall>ps'. Inr paths = Inr ps' \<longrightarrow>
           ps' = img_paths ?jd 0 (length ?ps)
           \<and> pipe_calls e2 = ?ps \<and> saved_images e2 = ps'
           \<and> stages e2 = replicate (1 + 2 * length ?ps) GenerateImages"
    by blast
  have pa: "paths = img_paths ?jd 0 (length ?ps)" using e2(3) by simp
  have k2: "resolve_api_key w2 key = Some k"
    using key(1) resolve_api_key_environ[of w2 w key] e2(2) by (simp add: log_event_def)
  obtain resp where rq: "requests_post env (tts_url voice) (tts_headers k) (tts_payload enhanced)
      = Inr resp" "status_code resp = 200"
    using rp by blast
  have apne: "?ap \<noteq> []" using job_paths(1)[OF jd] by simp
  have "fst (generate_audio env w2 enhanced voice ?ap 1 key) = Inr ?ap"
    using k2 key(2) rq apne nofault by (rule generate_audio_returns)
  then obtain w3 where s3: "generate_audio env w2 enhanced voice ?ap 1 key = (Inr ?ap, w3)"
    by (cases "generate_audio env w2 enhanced voice ?ap 1 key") simp
  have pne: "paths \<noteq> []" using pa ne by (simp add: img_paths_def)
  have "0 < int (length ?ps)" using ne by simp
  then have "duration div int (length ?ps) \<noteq> 0" using du by (simp add: floordiv_zero_iff)
  then have dv: "duration div int (length paths) \<noteq> 0" using pa by simp
  have "is_ok (fst (assemble_video env w3 paths ?ap ?vp duration None))"
    using pne dv rt nofault apart(3)[symmetric] by (rule assemble_video_returns)
  then obtain x w4 where s4: "assemble_video env w3 paths ?ap ?vp duration None = (Inr x, w4)"
    by (cases "assemble_video env w3 paths ?ap ?vp duration None")
       (auto simp: is_ok_def split: sum.splits)
  show ?thesis
    using mk s1 s2 s3 s4 by (simp add: process_video_pipeline_def Let_def is_ok_def)
qed

subsection \<open>The pipeline on the canned collaborators\<close>

lemma canned_cooperative: "cooperative (canned_env 200)"
  by (simp add: cooperative_def canned_env_def pipe_ok_def)

lemma sample_job_id:
  "new_job_id (canned_env 200) empty_world = ''00000000-0000-4000-8000-000000000000''"
  by (simp add: new_job_id_def canned_env_def empty_world_def str_uuid_def uuid4_def hex32_def
        hex_digit_def upt_rec drop_bit_eq_div)

lemma sample_enhanced:
  "text_generation (canned_env 200) default_model_name sample_text
     = Inr (sample_text @ ustr_of ''. Water boils.'')"
  by (simp add: canned_env_def)

lemma sample_prompts:
  "extract_prompts (ustr_of ''flat'') (sample_text @ ustr_of ''. Water boils.'')
     = [ustr_of ''flat educational image: Ice melts'',
        ustr_of ''flat educational image: Steam rises'',
        ustr_of ''flat educational image: Fog lifts'']"
  by (simp add: extract_prompts_def sample_text_def str_strip_def isspace_def ustr_of_def
        period_def)

lemma sample_job_dir:
  "os_path_join ''static/videos'' ''00000000-0000-4000-8000-000000000000'' = sample_job_dir"
  by (simp add: os_path_join_def sep_def sample_job_dir_def)

lemma sample_paths:
  "os_path_join sample_job_dir ''audio.mp3'' = sample_job_dir @ ''/audio.mp3''"
  "os_path_join sample_job_dir ''video.mp4'' = sample_job_dir @ ''/video.mp4''"
  "img_paths sample_job_dir 0 3
     = [sample_job_dir @ ''/img_1.png'', sample_job_dir @ ''/img_2.png'',
        sample_job_dir @ ''/img_3.png'']"
  "str_replace ''.mp4'' ''_tmp.mp4'' (sample_job_dir @ ''/video.mp4'')
     = sample_job_dir @ ''/video_tmp.mp4''"
proof -
  show "os_path_join sample_job_dir ''audio.mp3'' = sample_job_dir @ ''/audio.mp3''"
    by (simp add: os_path_join_def sep_def sample_job_dir_def)
  show "os_path_join sample_job_dir ''video.mp4'' = sample_job_dir @ ''/video.mp4''"
    by (simp add: os_path_join_def sep_def sample_job_dir_def)
  show "img_paths sample_job_dir 0 3
     = [sample_job_dir @ ''/img_1.png'', sample_job_dir @ ''/img_2.png'',
        sample_job_dir @ ''/img_3.png'']"
    by (simp add: os_path_join_def sep_def sample_job_dir_def img_paths_def img_name_def
          str_nat.simps digit_char_def upt_rec)
  have "CHR ''.'' \<notin> set sample_job_dir" by (simp add: sample_job_dir_def)
  then have "str_replace ''.mp4'' ''_tmp.mp4'' (sample_job_dir @ ''/video.mp4'')
      = sample_job_dir @ str_replace ''.mp4'' ''_tmp.mp4'' ''/video.mp4''"
    by (rule str_replace_skip)
  then show "str_replace ''.mp4'' ''_tmp.mp4'' (sample_job_dir @ ''/video.mp4'')
     = sample_job_dir @ ''/video_tmp.mp4''"
    by (simp add: str_replace_video)
qed

lemma sample_ok: "is_ok (fst sample_run)"
  unfolding sample_run_def
proof (rule pipeline_returns)
  show "cooperative (canned_env 200)" by (rule canned_cooperative)
  show "resolve_api_key empty_world (Some ''k'') = Some ''k''" by (simp add: resolve_api_key_def)
  show "''k'' \<noteq> []" by simp
  show "text_generation (canned_env 200) default_model_name sample_text
     = Inr (sample_text @ ustr_of ''. Water boils.'')"
    by (rule sample_enhanced)
  show "extract_prompts (ustr_of ''flat'') (sample_text @ ustr_of ''. Water boils.'') \<noteq> []"
    by (simp add: sample_prompts)
  show "int (length (extract_prompts (ustr_of ''flat'')
          (sample_text @ ustr_of ''. Water boils.''))) \<le> 60"
    by (simp add: sample_prompts)
qed

lemma sample_run_result:
  "fst sample_run =
     Inr \<lparr>job_id = ''00000000-0000-4000-8000-000000000000'',
          video_path = sample_job_dir @ ''/video.mp4'',
          image_paths = [sample_job_dir @ ''/img_1.png'', sample_job_dir @ ''/img_2.png'',
                         sample_job_dir @ ''/img_3.png''],
          audio_path = sample_job_dir @ ''/audio.mp3'',
          prompts = [ustr_of ''flat educational image: Ice melts'',
                     ustr_of ''flat educational image: Steam rises'',
                     ustr_of ''flat educational image: Fog lifts''],
          enhanced_text = sample_text @ ustr_of ''. Water boils.''\<rparr>"
proof -
  let ?e = "canned_env 200"
  let ?jd = "os_path_join ''static/videos'' (new_job_id ?e empty_world)"
  obtain res where r: "fst sample_run = Inr res"
    using sample_ok by (cases "fst sample_run") (simp_all add: is_ok_def)
  have "sample_run = (Inr res, snd sample_run)" by (metis r prod.collapse)
  then have run: "process_video_pipeline ?e empty_world sample_text (ustr_of ''flat'') ''Rachel''
      ''7'' ''static/videos'' 60 (Some ''k'') = (Inr res, snd sample_run)"
    by (simp only: sample_run_def)
  have nf: "\<not> (\<exists>e. fs_fault ?e (trace empty_world) (MakeDirs ?jd) = Some e
                 \<and> Inr res = Inl e
                 \<and> snd sample_run = empty_world\<lparr>rng_pos := rng_pos empty_world + 1\<rparr>)"
    by simp
  from pipeline_run[OF run] nf obtain evs where
    "\<forall>res'. Inr res = Inr res' \<longrightarrow>
           job_id res' = new_job_id ?e empty_world
         \<and> text_generation ?e default_model_name sample_text = Inr (enhanced_text res')
         \<and> prompts res' = extract_prompts (ustr_of ''flat'') (enhanced_text res')
         \<and> image_paths res' = img_paths ?jd 0 (length (prompts res'))
         \<and> audio_path res' = os_path_join ?jd ''audio.mp3''
         \<and> video_path res' = os_path_join ?jd ''video.mp4''
         \<and> stages evs = EnhanceText # replicate (1 + 2 * length (prompts res')) GenerateImages
             @ [GenerateAudio, GenerateAudio, GenerateAudio,
                AssembleVideo, AssembleVideo, AssembleVideo]"
    by blast
  then have f: "job_id res = new_job_id ?e empty_world"
    "text_generation ?e default_model_name sample_text = Inr (enhanced_text res)"
    "prompts res = extract_prompts (ustr_of ''flat'') (enhanced_text res)"
    "image_paths res = img_paths ?jd 0 (length (prompts res))"
    "audio_path res = os_path_join ?jd ''audio.mp3''"
    "video_path res = os_path_join ?jd ''video.mp4''"
    by simp_all
  have en: "enhanced_text res = sample_text @ ustr_of ''. Water boils.''"
    using f(2) sample_enhanced by simp
  have pr: "prompts res = [ustr_of ''flat educational image: Ice melts'',
                     ustr_of ''flat educational image: Steam rises'',
                     ustr_of ''flat educational image: Fog lifts'']"
    using f(3) en sample_prompts by simp
  have jd: "?jd = sample_job_dir" by (simp add: sample_job_id sample_job_dir)
  have "length (prompts res) = 3" using pr by simp
  then have im: "image_paths res = [sample_job_dir @ ''/img_1.png'',
      sample_job_dir @ ''/img_2.png'', sample_job_dir @ ''/img_3.png'']"
    using f(4) jd sample_paths(3) by simp
  have "res = \<lparr>job_id = ''00000000-0000-4000-8000-000000000000'',
          video_path = sample_job_dir @ ''/video.mp4'',
          image_paths = [sample_job_dir @ ''/img_1.png'', sample_job_dir @ ''/img_2.png'',
                         sample_job_dir @ ''/img_3.png''],
          audio_path = sample_job_dir @ ''/audio.mp3'',
          prompts = [ustr_of ''flat educational image: Ice melts'',
                     ustr_of ''flat educational image: Steam rises'',
                     ustr_of ''flat educational image: Fog lifts''],
          enhanced_text = sample_text @ ustr_of ''. Water boils.''\<rparr>"
    using f(1) f(5) f(6) en pr im jd sample_job_id sample_paths(1,2)
    by (cases res) simp
  then show ?thesis using r by simp
qed


subsection \<open>The prompts of a job\<close>

text \<open>
  Claim C8. The prompts the pipeline builds are at most three, and they are the prompts the
  specification describes: one for each non-empty stripped period-separated segment of the
  enhanced text, the first three of them in order, each of the form
  \<^verbatim>\<open>{template} educational image: {segment}\<close>. The segments are what splitting at the
  period U+002E gives: joined with periods they are the enhanced text, none of them contains
  a period, and there is one more of them than there are periods. Stripping a segment
  removes whitespace at both ends and nothing else: the segment is whitespace, the stripped
  segment, whitespace, and the stripped segment neither begins nor ends with whitespace,
  where whitespace is what \<^verbatim>\<open>str.isspace\<close> accepts. Whatever the outcome of a run, at
  most three diffusion calls are made and at most three images saved. When the run returns,
  the enhanced text of the result is what the language model returned, the prompts of the
  result are the prompts of that text, there is one image path for each prompt, and the
  diffusion calls are the prompts, in order.
\<close>

theorem pipeline_prompts_at_most_three:
  "length (extract_prompts template enhanced) \<le> 3
   \<and> extract_prompts template enhanced = spec_prompts template enhanced
   \<and> str_join period (str_split period enhanced) = enhanced
   \<and> list_all (\<lambda>seg. period \<notin> set seg) (str_split period enhanced)
   \<and> length (str_split period enhanced) = Suc (length (filter (\<lambda>a. a = period) enhanced))
   \<and> period = of_char CHR ''.''
   \<and> (\<exists>a b. seg = a @ str_strip seg @ b \<and> list_all isspace a \<and> list_all isspace b)
   \<and> (str_strip seg = []
        \<or> \<not> isspace (hd (str_strip seg)) \<and> \<not> isspace (last (str_strip seg)))
   \<and> isspace c = (c \<in> {9, 10, 11, 12, 13, 28, 29, 30, 31, 32, 133, 160, 5760, 8232, 8233,
                           8239, 8287, 12288} \<or> (8192 \<le> c \<and> c \<le> 8202))
   \<and> length (pipe_calls (new_events w (snd (process_video_pipeline env w intext template voice
         user out_dir duration key)))) \<le> 3
   \<and> length (saved_images (new_events w (snd (process_video_pipeline env w intext template voice
         user out_dir duration key)))) \<le> 3
   \<and> (\<forall>res. fst (process_video_pipeline env w intext template voice user out_dir duration key)
               = Inr res \<longrightarrow>
          text_generation env default_model_name intext = Inr (enhanced_text res)
        \<and> prompts res = spec_prompts template (enhanced_text res)
        \<and> length (prompts res) \<le> 3
        \<and> length (image_paths res) = length (prompts res)
        \<and> pipe_calls (new_events w (snd (process_video_pipeline env w intext template voice
              user out_dir duration key))) = prompts res
        \<and> saved_images (new_events w (snd (process_video_pipeline env w intext template voice
              user out_dir duration key))) = image_paths res)"
  (is "?c1 \<and> ?c2 \<and> ?c3 \<and> ?c4 \<and> ?c5 \<and> ?c6 \<and> ?c7 \<and> ?c8 \<and> ?c9 \<and> ?c10 \<and> ?c11 \<and> ?c12")
proof -
  let ?jd = "os_path_join out_dir (new_job_id env w)"
  obtain r w' where
    run: "process_video_pipeline env w intext template voice user out_dir duration key = (r, w')"
    by (cases "process_video_pipeline env w intext template voice user out_dir duration key")
  have c1: ?c1 by (rule length_extract_prompts)
  have c2: ?c2 by (rule extract_prompts_spec)
  have c3: ?c3 by (rule str_split_join)
  have c4: ?c4 by (rule str_split_no_sep)
  have c5: ?c5 by (rule length_str_split)
  have c6: ?c6 by (rule period_char)
  have c7: ?c7 by (rule str_strip_parts)
  have c8: ?c8 using str_strip_ends[of seg] by blast
  have c9: ?c9 by (rule isspace_table)
  consider (fault) e where "r = Inl e" "w' = w\<lparr>rng_pos := rng_pos w + 1\<rparr>"
    | (ran) evs where "trace w' = trace w @ MakeDirs ?jd # evs"
       "length (pipe_calls evs) \<le> 3" "length (saved_images evs) \<le> 3"
       "\<forall>res. r = Inr res \<longrightarrow>
           job_id res = new_job_id env w
         \<and> text_generation env default_model_name intext = Inr (enhanced_text res)
         \<and> prompts res = extract_prompts template (enhanced_text res)
         \<and> image_paths res = img_paths ?jd 0 (length (prompts res))
         \<and> audio_path res = os_path_join ?jd ''audio.mp3''
         \<and> video_path res = os_path_join ?jd ''video.mp4''
         \<and> stages evs = EnhanceText # replicate (1 + 2 * length (prompts res)) GenerateImages
             @ [GenerateAudio, GenerateAudio, GenerateAudio,
                AssembleVideo, AssembleVideo, AssembleVideo]
         \<and> written evs = image_paths res @ [audio_path res, audio_path res]
         \<and> tool_outputs evs = [str_replace ''.mp4'' ''_tmp.mp4'' (video_path res), video_path res]
         \<and> pipe_calls evs = prompts res
         \<and> saved_images evs = image_paths res"
    using pipeline_run[OF run] by blast
  then have rest: "length (pipe_calls (new_events w w')) \<le> 3
      \<and> length (saved_images (new_events w w')) \<le> 3
      \<and> (\<forall>res. r = Inr res \<longrightarrow>
          text_generation env default_model_name intext = Inr (enhanced_text res)
        \<and> prompts res = spec_prompts template (enhanced_text res)
        \<and> length (prompts res) \<le> 3
        \<and> length (image_paths res) = length (prompts res)
        \<and> pipe_calls (new_events w w') = prompts res
        \<and> saved_images (new_events w w') = image_paths res)"
  proof cases
    case fault
    have "new_events w w' = []" using fault(2) by (simp add: new_events_def)
    then show ?thesis using fault(1) by simp
  next
    case ran
    have ne: "new_events w w' = MakeDirs ?jd # evs" using ran(1) by simp
    have a: "length (pipe_calls (new_events w w')) \<le> 3" using ran(2) ne by simp
    have b: "length (saved_images (new_events w w')) \<le> 3" using ran(3) ne by simp
    have c: "\<forall>res. r = Inr res \<longrightarrow>
          text_generation env default_model_name intext = Inr (enhanced_text res)
        \<and> prompts res = spec_prompts template (enhanced_text res)
        \<and> length (prompts res) \<le> 3
        \<and> length (image_paths res) = length (prompts res)
        \<and> pipe_calls (new_events w w') = prompts res
        \<and> saved_images (new_events w w') = image_paths res"
    proof (intro allI impI)
      fix res
      assume "r = Inr res"
      with ran(4) have f: "text_generation env default_model_name intext = Inr (enhanced_text res)"
        "prompts res = extract_prompts template (enhanced_text res)"
        "image_paths res = img_paths ?jd 0 (length (prompts res))"
        "pipe_calls evs = prompts res" "saved_images evs = image_paths res"
        by blast+
      have l: "length (prompts res) \<le> 3" using f(2) length_extract_prompts by simp
      have i: "length (image_paths res) = length (prompts res)" using f(3) by simp
      show "text_generation env default_model_name intext = Inr (enhanced_text res)
        \<and> prompts res = spec_prompts template (enhanced_text res)
        \<and> length (prompts res) \<le> 3
        \<and> length (image_paths res) = length (prompts res)
        \<and> pipe_calls (new_events w w') = prompts res
        \<and> saved_images (new_events w w') = image_paths res"
        using f(1,2,4,5) l i ne extract_prompts_spec by simp
    qed
    show ?thesis using a b c by (intro conjI) assumption+
  qed
  have c10: ?c10 using rest unfolding run snd_conv by (rule conjunct1)
  have c11: ?c11 using rest unfolding run snd_conv by (elim conjE)
  have c12: ?c12 using rest unfolding run snd_conv fst_conv by (elim conjE)
  show ?thesis
    using c1 c2 c3 c4 c5 c6 c7 c8 c9 c10 c11 c12 by (intro conjI) assumption+
qed

theorem pipeline_prompts_at_most_three_witness:
  "fst sample_run =
     Inr \<lparr>job_id = ''00000000-0000-4000-8000-000000000000'',
          video_path = sample_job_dir @ ''/video.mp4'',
          image_paths = [sample_job_dir @ ''/img_1.png'', sample_job_dir @ ''/img_2.png'',
                         sample_job_dir @ ''/img_3.png''],
          audio_path = sample_job_dir @ ''/audio.mp3'',
          prompts = [ustr_of ''flat educational image: Ice melts'',
                     ustr_of ''flat educational image: Steam rises'',
                     ustr_of ''flat educational image: Fog lifts''],
          enhanced_text = sample_text @ ustr_of ''. Water boils.''\<rparr>
   \<and> spec_prompts (ustr_of ''flat'') (sample_text @ ustr_of ''. Water boils.'')
       = [ustr_of ''flat educational image: Ice melts'',
          ustr_of ''flat educational image: Steam rises'',
          ustr_of ''flat educational image: Fog lifts'']
   \<and> length (str_split period (sample_text @ ustr_of ''. Water boils.'')) = 7
   \<and> list_all (\<lambda>seg. period \<notin> set seg)
        (str_split period (sample_text @ ustr_of ''. Water boils.''))
   \<and> str_strip ([0x20, 0xA0] @ ustr_of ''Ice melts'' @ [0x3000, 0x09]) = ustr_of ''Ice melts''
   \<and> \<not> isspace (hd (str_strip ([0x20, 0xA0] @ ustr_of ''Ice melts'' @ [0x3000, 0x09])))
   \<and> \<not> isspace (last (str_strip ([0x20, 0xA0] @ ustr_of ''Ice melts'' @ [0x3000, 0x09])))
   \<and> isspace 0xA0
   \<and> pipe_calls (new_events empty_world (snd sample_run))
       = [ustr_of ''flat educational image: Ice melts'',
          ustr_of ''flat educational image: Steam rises'',
          ustr_of ''flat educational image: Fog lifts'']"
proof -
  let ?seg = "[0x20, 0xA0] @ ustr_of ''Ice melts'' @ [0x3000, 0x09]"
  let ?en = "sample_text @ ustr_of ''. Water boils.''"
  note t = pipeline_prompts_at_most_three
          [of "ustr_of ''flat''" ?en ?seg "0xA0" empty_world "canned_env 200"
              sample_text "''Rachel''" "''7''" "''static/videos''" 60 "Some ''k''",
           folded sample_run_def]
  note t2 = t[THEN conjunct2]
  note t3 = t2[THEN conjunct2]
  note t4 = t3[THEN conjunct2]
  note t5 = t4[THEN conjunct2]
  note t6 = t5[THEN conjunct2]
  note t7 = t6[THEN conjunct2]
  note t8 = t7[THEN conjunct2]
  note t9 = t8[THEN conjunct2]
  note t10 = t9[THEN conjunct2]
  note t11 = t10[THEN conjunct2]
  note t12 = t11[THEN conjunct2]
  have a: "spec_prompts (ustr_of ''flat'') ?en
       = [ustr_of ''flat educational image: Ice melts'',
          ustr_of ''flat educational image: Steam rises'',
          ustr_of ''flat educational image: Fog lifts'']"
    using t2[THEN conjunct1] sample_prompts by simp
  have "length (filter (\<lambda>a. a = period) ?en) = 6"
    by (simp add: sample_text_def ustr_of_def period_def)
  then have b: "length (str_split period ?en) = 7"
    using t5[THEN conjunct1] by simp
  have c: "list_all (\<lambda>seg. period \<notin> set seg) (str_split period ?en)"
    by (rule t4[THEN conjunct1])
  have d: "str_strip ?seg = ustr_of ''Ice melts''"
    by (simp add: str_strip_def isspace_def ustr_of_def)
  have "str_strip ?seg \<noteq> []" unfolding d by (simp add: ustr_of_def)
  then have e: "\<not> isspace (hd (str_strip ?seg)) \<and> \<not> isspace (last (str_strip ?seg))"
    using t8[THEN conjunct1] by blast
  have f: "isspace 0xA0" using t9[THEN conjunct1] by simp
  have g: "pipe_calls (new_events empty_world (snd sample_run))
       = [ustr_of ''flat educational image: Ice melts'',
          ustr_of ''flat educational image: Steam rises'',
          ustr_of ''flat educational image: Fog lifts'']"
    using t12[THEN spec, THEN mp, OF sample_run_result] by simp
  show ?thesis
    using sample_run_result a b c d e f g by (intro conjI) simp_all
qed

subsection \<open>Order of the stages and the job directory\<close>





end
